theory Spec2Isabelle
  imports Complex_Main "HOL-Library.Sublist"
begin

section \<open>JavaScript values\<close>

text \<open>
  The values the programs handle are JSON trees and the results of reading them.
  Numbers are restricted to the integers (counts, indices, identifiers); the result of
  a failed numeric conversion is the separate value \<open>JNaN\<close>. An object is an association
  list whose first binding of a key is the effective one.
\<close>

datatype jsval =
    JUndefined
  | JNull
  | JBool bool
  | JNum int
  | JNaN
  | JStr string
  | JArr "jsval list"
  | JObj "(string \<times> jsval) list"

text \<open>ToBoolean: what \<open>if (v)\<close>, \<open>!v\<close>, \<open>v || d\<close> and \<open>v ? a : b\<close> test.\<close>

fun truthy :: "jsval \<Rightarrow> bool" where
  "truthy JUndefined = False"
| "truthy JNull = False"
| "truthy (JBool b) = b"
| "truthy (JNum n) = (n \<noteq> 0)"
| "truthy JNaN = False"
| "truthy (JStr s) = (s \<noteq> [])"
| "truthy (JArr xs) = True"
| "truthy (JObj kvs) = True"

text \<open>\<open>v == null\<close>: true of \<open>null\<close> and \<open>undefined\<close> only.\<close>

fun nullish :: "jsval \<Rightarrow> bool" where
  "nullish JUndefined = True"
| "nullish JNull = True"
| "nullish _ = False"

text \<open>\<open>a || b\<close> on values.\<close>

definition js_or :: "jsval \<Rightarrow> jsval \<Rightarrow> jsval" where
  "js_or a b = (if truthy a then a else b)"

text \<open>
  \<open>v?.k\<close> for a property name \<open>k\<close>: \<open>undefined\<close> on \<open>null\<close> and \<open>undefined\<close>, the
  own property of an object, the \<open>length\<close> of an array or a string, and \<open>undefined\<close>
  otherwise. The programs read no other inherited property through this function.
\<close>

fun get :: "jsval \<Rightarrow> string \<Rightarrow> jsval" where
  "get (JObj kvs) k = (case map_of kvs k of Some v \<Rightarrow> v | None \<Rightarrow> JUndefined)"
| "get (JArr xs) k = (if k = ''length'' then JNum (int (length xs)) else JUndefined)"
| "get (JStr s) k = (if k = ''length'' then JNum (int (length s)) else JUndefined)"
| "get _ k = JUndefined"

text \<open>A thrown exception: a \<open>TypeError\<close> of the language, or \<open>new Error(message)\<close>.\<close>

datatype js_error = TypeError | Error string

text \<open>\<open>v.k\<close> without optional chaining throws on \<open>null\<close> and \<open>undefined\<close>.\<close>

definition get_strict :: "jsval \<Rightarrow> string \<Rightarrow> js_error + jsval" where
  "get_strict v k = (if nullish v then Inl TypeError else Inr (get v k))"

text \<open>Decimal digits of a number, as \<open>String(n)\<close> prints an integer below \<open>10^21\<close>.\<close>

fun digits :: "nat \<Rightarrow> string" where
  "digits n = (if n < 10 then [char_of (48 + n)] else digits (n div 10) @ [char_of (48 + n mod 10)])"

text \<open>
  \<open>v?.[i]\<close> for an index \<open>i\<close>: the element of an array, the character of a string, the
  property of an object named by the digits of \<open>i\<close>.
\<close>

fun get_index :: "jsval \<Rightarrow> nat \<Rightarrow> jsval" where
  "get_index (JArr xs) i = (if i < length xs then xs ! i else JUndefined)"
| "get_index (JStr s) i = (if i < length s then JStr [s ! i] else JUndefined)"
| "get_index (JObj kvs) i = (case map_of kvs (digits i) of Some v \<Rightarrow> v | None \<Rightarrow> JUndefined)"
| "get_index _ i = JUndefined"

definition show_int :: "int \<Rightarrow> string" where
  "show_int i = (if i < 0 then CHR ''-'' # digits (nat (- i)) else digits (nat i))"

fun join :: "string \<Rightarrow> string list \<Rightarrow> string" where
  "join sep [] = []"
| "join sep [x] = x"
| "join sep (x # y # ys) = x @ sep @ join sep (y # ys)"

text \<open>ToString, as a template literal applies it.\<close>

fun to_string :: "jsval \<Rightarrow> string" where
  "to_string JUndefined = ''undefined''"
| "to_string JNull = ''null''"
| "to_string (JBool b) = (if b then ''true'' else ''false'')"
| "to_string (JNum n) = show_int n"
| "to_string JNaN = ''NaN''"
| "to_string (JStr s) = s"
| "to_string (JArr xs) = join '','' (map (\<lambda>x. if nullish x then [] else to_string x) xs)"
| "to_string (JObj kvs) = ''[object Object]''"

text \<open>\<open>toLowerCase\<close> on the letters of ASCII.\<close>

definition lower_char :: "char \<Rightarrow> char" where
  "lower_char c = (if 65 \<le> (of_char c :: nat) \<and> (of_char c :: nat) \<le> 90 then char_of ((of_char c :: nat) + 32) else c)"

definition toLowerCase :: "string \<Rightarrow> string" where
  "toLowerCase s = map lower_char s"

text \<open>
  White space, as \<open>\s\<close>, \<open>trim\<close> and \<open>parseInt\<close> know it, among the code units below 256;
  strings are lists of such code units.
\<close>

definition is_space :: "char \<Rightarrow> bool" where
  "is_space c = (c \<in> set [CHR 0x09, CHR 0x0A, CHR 0x0B, CHR 0x0C, CHR 0x0D, CHR 0x20, CHR 0xA0])"

text \<open>\<open>s.trim()\<close>.\<close>

definition trim :: "string \<Rightarrow> string" where
  "trim s = rev (dropWhile is_space (rev (dropWhile is_space s)))"

fun tails :: "'a list \<Rightarrow> 'a list list" where
  "tails [] = [] # []"
| "tails (x # xs) = (x # xs) # tails xs"

text \<open>\<open>s.includes(q)\<close>.\<close>

definition str_includes :: "string \<Rightarrow> string \<Rightarrow> bool" where
  "str_includes s q = list_ex (prefix q) (tails s)"

section \<open>The item limit of an ingestion run\<close>

text \<open>
  \<open>server/index.js\<close>, the handler of \<open>POST /api/youtube/channel\<close>:
  \<^verbatim>\<open>const { url, maxVideos = 10 } = req.body;\<close>
  \<^verbatim>\<open>const limit = Math.min(videoRenderers.length, Math.max(1, Number(maxVideos) || 10));\<close>

  \<open>Number\<close> is the language's coercion; its result is a double, a rational here, or one of
  the three special values. The request field is \<open>None\<close> when the body has no \<open>maxVideos\<close>
  and \<open>Some n\<close> when it has one whose coercion is \<open>n\<close>.
\<close>

datatype jsnum = NaN | Fin rat | PosInf | NegInf

fun Math_max :: "jsnum \<Rightarrow> jsnum \<Rightarrow> jsnum" where
  "Math_max NaN b = NaN"
| "Math_max a NaN = NaN"
| "Math_max PosInf b = PosInf"
| "Math_max a PosInf = PosInf"
| "Math_max NegInf b = b"
| "Math_max a NegInf = a"
| "Math_max (Fin a) (Fin b) = Fin (max a b)"

fun Math_min :: "jsnum \<Rightarrow> jsnum \<Rightarrow> jsnum" where
  "Math_min NaN b = NaN"
| "Math_min a NaN = NaN"
| "Math_min NegInf b = NegInf"
| "Math_min a NegInf = NegInf"
| "Math_min PosInf b = b"
| "Math_min a PosInf = a"
| "Math_min (Fin a) (Fin b) = Fin (min a b)"

text \<open>\<open>n || d\<close> on numbers: \<open>0\<close> and \<open>NaN\<close> are falsy.\<close>

fun num_or :: "jsnum \<Rightarrow> jsnum \<Rightarrow> jsnum" where
  "num_or NaN d = d"
| "num_or (Fin r) d = (if r = 0 then d else Fin r)"
| "num_or n d = n"

text \<open>The destructuring default, then \<open>Number\<close>.\<close>

fun Number_maxVideos :: "jsnum option \<Rightarrow> jsnum" where
  "Number_maxVideos None = Fin 10"
| "Number_maxVideos (Some n) = n"

definition limit :: "nat \<Rightarrow> jsnum option \<Rightarrow> jsnum" where
  "limit len maxVideos =
     Math_min (Fin (of_nat len)) (Math_max (Fin 1) (num_or (Number_maxVideos maxVideos) (Fin 10)))"

text \<open>
  The limit as the specification words it: the requested maximum, 10 when absent,
  clamped into \<open>[1, 100]\<close>, then bounded by the number of available entries.
\<close>

definition spec_limit :: "nat \<Rightarrow> rat option \<Rightarrow> rat" where
  "spec_limit len requested =
     min (of_nat len) (max 1 (min 100 (case requested of None \<Rightarrow> 10 | Some r \<Rightarrow> r)))"

section \<open>The JSON tool executor\<close>

text \<open>
  \<open>src/services/jsonTools.js\<close>, \<open>executeJsonTool(toolName, args, data)\<close>. The caller passes
  the loaded data set: \<open>null\<close> before a file is loaded, an array afterwards.
\<close>

datatype tool_data = Data_undefined | Data_null | Data_array "jsval list"

text \<open>
  What the language supplies and the repository does not define: ToNumber on strings,
  arrays and objects, and the time value of \<open>new Date(v)\<close> (\<open>NaN\<close> for an invalid date).
\<close>

record js_host =
  to_number_other :: "jsval \<Rightarrow> jsnum"
  date_value :: "jsval \<Rightarrow> jsnum"

fun ToNumber :: "js_host \<Rightarrow> jsval \<Rightarrow> jsnum" where
  "ToNumber h JUndefined = NaN"
| "ToNumber h JNull = Fin 0"
| "ToNumber h (JBool b) = Fin (if b then 1 else 0)"
| "ToNumber h (JNum n) = Fin (of_int n)"
| "ToNumber h JNaN = NaN"
| "ToNumber h v = to_number_other h v"

text \<open>\<open>a - b\<close> on numbers.\<close>

fun num_sub :: "jsnum \<Rightarrow> jsnum \<Rightarrow> jsnum" where
  "num_sub NaN b = NaN"
| "num_sub a NaN = NaN"
| "num_sub PosInf PosInf = NaN"
| "num_sub NegInf NegInf = NaN"
| "num_sub PosInf b = PosInf"
| "num_sub NegInf b = NegInf"
| "num_sub (Fin a) PosInf = NegInf"
| "num_sub (Fin a) NegInf = PosInf"
| "num_sub (Fin a) (Fin b) = Fin (a - b)"

fun positive :: "jsnum \<Rightarrow> bool" where
  "positive PosInf = True"
| "positive (Fin r) = (0 < r)"
| "positive _ = False"

text \<open>
  \<open>[...data].sort(cmp)\<close>: a stable sort; \<open>a\<close> stays before \<open>b\<close> unless \<open>cmp(a, b) > 0\<close>. (For
  a comparator that is not a consistent order the language leaves the permutation to the
  implementation; this is one such permutation.)
\<close>

fun sort_insert :: "('a \<Rightarrow> 'a \<Rightarrow> jsnum) \<Rightarrow> 'a \<Rightarrow> 'a list \<Rightarrow> 'a list" where
  "sort_insert cmp x [] = [x]"
| "sort_insert cmp x (y # ys) = (if positive (cmp x y) then y # sort_insert cmp x ys else x # y # ys)"

fun js_sort :: "('a \<Rightarrow> 'a \<Rightarrow> jsnum) \<Rightarrow> 'a list \<Rightarrow> 'a list" where
  "js_sort cmp [] = []"
| "js_sort cmp (x # xs) = sort_insert cmp x (js_sort cmp xs)"

text \<open>
  \<open>[...data].sort(cmp)[0]\<close> with a comparator of \<open>play_video\<close>. The sort moves \<open>undefined\<close>
  elements to the end without comparing them; the comparators read a property of each
  compared element, which throws on \<open>null\<close>; fewer than two elements are not compared.
\<close>

definition sort_first :: "(jsval \<Rightarrow> jsval \<Rightarrow> jsnum) \<Rightarrow> jsval list \<Rightarrow> js_error + jsval" where
  "sort_first cmp data =
     (let defined = filter (\<lambda>v. v \<noteq> JUndefined) data; rest = filter (\<lambda>v. v = JUndefined) data
      in if 2 \<le> length defined \<and> list_ex (\<lambda>v. v = JNull) defined then Inl TypeError
         else Inr (get_index (JArr (js_sort cmp defined @ rest)) 0))"

text \<open>\<open>(b.k || 0) - (a.k || 0)\<close> and \<open>new Date(b.release_date) - new Date(a.release_date)\<close>.\<close>

definition count_key :: "js_host \<Rightarrow> string \<Rightarrow> jsval \<Rightarrow> jsnum" where
  "count_key h k v = ToNumber h (js_or (get v k) (JNum 0))"

definition by_count_desc :: "js_host \<Rightarrow> string \<Rightarrow> jsval \<Rightarrow> jsval \<Rightarrow> jsnum" where
  "by_count_desc h k a b = num_sub (count_key h k b) (count_key h k a)"

definition by_count_asc :: "js_host \<Rightarrow> string \<Rightarrow> jsval \<Rightarrow> jsval \<Rightarrow> jsnum" where
  "by_count_asc h k a b = num_sub (count_key h k a) (count_key h k b)"

definition by_date_desc :: "js_host \<Rightarrow> jsval \<Rightarrow> jsval \<Rightarrow> jsnum" where
  "by_date_desc h a b = num_sub (date_value h (get b ''release_date'')) (date_value h (get a ''release_date''))"

definition by_date_asc :: "js_host \<Rightarrow> jsval \<Rightarrow> jsval \<Rightarrow> jsnum" where
  "by_date_asc h a b = num_sub (date_value h (get a ''release_date'')) (date_value h (get b ''release_date''))"

text \<open>
  The patterns tested on the criteria. \<open>gap_at a b t\<close>: \<open>t\<close> starts with \<open>a\<close>, then at most
  one character that is not a line terminator, then \<open>b\<close> (the pattern \<open>a.?b\<close>).
\<close>

definition line_terminator :: "char \<Rightarrow> bool" where
  "line_terminator c = (c = CHR 0x0A \<or> c = CHR 0x0D)"

definition gap_at :: "string \<Rightarrow> string \<Rightarrow> string \<Rightarrow> bool" where
  "gap_at a b t =
     (prefix a t \<and>
      (let r = drop (length a) t
       in prefix b r \<or> (r \<noteq> [] \<and> \<not> line_terminator (hd r) \<and> prefix b (tl r))))"

text \<open>\<open>/a.?b|.../i.test(c)\<close> and \<open>/w|.../i.test(c)\<close>, on ASCII.\<close>

definition test_gap :: "(string \<times> string) list \<Rightarrow> string \<Rightarrow> bool" where
  "test_gap alts c = list_ex (\<lambda>t. list_ex (\<lambda>(a, b). gap_at a b t) alts) (tails (toLowerCase c))"

definition test_words :: "string list \<Rightarrow> string \<Rightarrow> bool" where
  "test_words ws c = list_ex (\<lambda>w. str_includes (toLowerCase c) w) ws"

text \<open>\<open>data[Math.max(0, ordinal - 1)]\<close>: an element only at an integral index in range.\<close>

fun element_at :: "jsval list \<Rightarrow> jsnum \<Rightarrow> jsval" where
  "element_at xs (Fin r) =
     (if 0 \<le> r \<and> r = of_int \<lfloor>r\<rfloor> then get_index (JArr xs) (nat \<lfloor>r\<rfloor>) else JUndefined)"
| "element_at xs _ = JUndefined"

text \<open>
  The predicate of \<open>data.find\<close>: \<open>v.title?.toLowerCase().includes(query.toLowerCase())\<close>.
  Reading \<open>title\<close> throws on a \<open>null\<close> element; the chain stops at a \<open>null\<close> or absent title;
  \<open>toLowerCase\<close> exists on strings only, and the argument is evaluated after it.
\<close>

definition title_includes :: "jsval \<Rightarrow> jsval \<Rightarrow> js_error + bool" where
  "title_includes query v =
     (if nullish v then Inl TypeError
      else case get v ''title'' of
             JUndefined \<Rightarrow> Inr False
           | JNull \<Rightarrow> Inr False
           | JStr t \<Rightarrow> (case query of JStr q \<Rightarrow> Inr (str_includes (toLowerCase t) (toLowerCase q))
                                   | _ \<Rightarrow> Inl TypeError)
           | _ \<Rightarrow> Inl TypeError)"

fun find_title :: "jsval \<Rightarrow> jsval list \<Rightarrow> js_error + jsval" where
  "find_title query [] = Inr JUndefined"
| "find_title query (v # vs) =
     (case title_includes query v of
        Inl e \<Rightarrow> Inl e
      | Inr True \<Rightarrow> Inr v
      | Inr False \<Rightarrow> find_title query vs)"

text \<open>The selection of \<open>play_video\<close>.\<close>

definition select_video :: "js_host \<Rightarrow> jsval \<Rightarrow> jsval list \<Rightarrow> js_error + jsval" where
  "select_video h args data =
     (if nullish args then Inl TypeError
      else let query = get args ''query''; ordinal = get args ''ordinal''; criteria = get args ''criteria''
      in if truthy criteria then
           (case criteria of
              JStr s \<Rightarrow>
                (let c = toLowerCase s
                 in if test_gap [(''most'', ''view''), (''most'', ''play''), (''most'', ''watch''), (''most'', ''popular'')] c
                      then sort_first (by_count_desc h ''view_count'') data
                    else if test_gap [(''most'', ''lik'')] c
                      then sort_first (by_count_desc h ''like_count'') data
                    else if test_gap [(''most'', ''comment'')] c
                      then sort_first (by_count_desc h ''comment_count'') data
                    else if test_gap [(''least'', ''view''), (''least'', ''play'')] c
                      then sort_first (by_count_asc h ''view_count'') data
                    else if test_gap [(''least'', ''lik'')] c
                      then sort_first (by_count_asc h ''like_count'') data
                    else if test_gap [(''least'', ''comment'')] c
                      then sort_first (by_count_asc h ''comment_count'') data
                    else if test_words [''latest'', ''newest'', ''recent''] c
                      then sort_first (by_date_desc h) data
                    else if test_words [''oldest'', ''earliest''] c
                      then sort_first (by_date_asc h) data
                    else Inr (get_index (JArr data) 0))
            | _ \<Rightarrow> Inl TypeError)
         else if \<not> nullish ordinal then
           Inr (js_or (element_at data (Math_max (Fin 0) (num_sub (ToNumber h ordinal) (Fin 1))))
                      (get_index (JArr data) 0))
         else if truthy query then
           (case find_title query data of
              Inl e \<Rightarrow> Inl e
            | Inr found \<Rightarrow> Inr (js_or found (get_index (JArr data) 0)))
         else Inr (get_index (JArr data) 0))"

text \<open>The card returned for the selected video.\<close>

definition video_card :: "jsval \<Rightarrow> jsval" where
  "video_card video =
     JObj [(''_videoType'', JStr ''youtube''),
           (''videoId'', get video ''video_id''),
           (''title'', js_or (get video ''title'') (JStr [])),
           (''thumbnail'', js_or (get video ''thumbnail'') (JStr [])),
           (''url'', js_or (get video ''video_url'')
                         (JStr (''https://www.youtube.com/watch?v='' @ to_string (get video ''video_id'')))),
           (''duration'', js_or (get video ''duration'') (JStr [])),
           (''view_count'', js_or (get video ''view_count'') JNull),
           (''like_count'', js_or (get video ''like_count'') JNull)]"

definition error_object :: "string \<Rightarrow> jsval" where
  "error_object msg = JObj [(''error'', JStr msg)]"

definition play_video :: "js_host \<Rightarrow> jsval \<Rightarrow> jsval list \<Rightarrow> js_error + jsval" where
  "play_video h args data =
     (case select_video h args data of
        Inl e \<Rightarrow> Inl e
      | Inr video \<Rightarrow>
          if \<not> truthy video then Inr (error_object ''No video found matching criteria.'')
          else Inr (video_card video))"

text \<open>
  The executor. Its two statistics branches, \<open>compute_stats_json\<close> and
  \<open>plot_metric_vs_time\<close>, compute means, deviations and histogram bins in floating point;
  they are the parameters \<open>stats\<close> and \<open>plot\<close>.
\<close>

definition executeJsonTool ::
  "js_host \<Rightarrow> (jsval \<Rightarrow> jsval list \<Rightarrow> js_error + jsval) \<Rightarrow> (jsval \<Rightarrow> jsval list \<Rightarrow> js_error + jsval)
     \<Rightarrow> string \<Rightarrow> jsval \<Rightarrow> tool_data \<Rightarrow> js_error + jsval" where
  "executeJsonTool h stats plot toolName args data =
     (case data of
        Data_undefined \<Rightarrow> Inr (error_object ''No JSON data loaded.'')
      | Data_null \<Rightarrow> Inr (error_object ''No JSON data loaded.'')
      | Data_array xs \<Rightarrow>
          if xs = [] then Inr (error_object ''No JSON data loaded.'')
          else if toolName = ''compute_stats_json'' then stats args xs
          else if toolName = ''plot_metric_vs_time'' then plot args xs
          else if toolName = ''play_video'' then play_video h args xs
          else Inr (error_object (''Unknown JSON tool: '' @ toolName)))"


text \<open>A host for concrete runs: no string is numeric, no date is valid.\<close>

definition plain_host :: js_host where
  "plain_host = \<lparr> to_number_other = (\<lambda>v. NaN), date_value = (\<lambda>v. NaN) \<rparr>"

definition no_branch :: "jsval \<Rightarrow> jsval list \<Rightarrow> js_error + jsval" where
  "no_branch args data = Inr JUndefined"

section \<open>The tool orchestration loop\<close>

text \<open>
  \<open>services/gemini.js\<close>, \<open>chatWithTools\<close>. The fetch of the prompt file (whether the
  response is ok, and its text), the model's chat session (started with the tool
  declarations and the history) and the tool callback are outside the repository; they
  act on a world \<open>'w\<close>. A response is the object the session returns and the string its
  \<open>text()\<close> accessor gives.
\<close>

record response =
  resp_body :: jsval
  resp_text :: string

record 'w chat_host =
  fetch_prompt :: "'w \<Rightarrow> (js_error + bool \<times> string) \<times> 'w"
  startChat :: "'w \<Rightarrow> jsval \<Rightarrow> jsval list \<Rightarrow> 'w"
  sendMessage :: "'w \<Rightarrow> jsval \<Rightarrow> (js_error + response) \<times> 'w"
  executeFn :: "'w \<Rightarrow> jsval \<Rightarrow> jsval \<Rightarrow> (js_error + jsval) \<times> 'w"

record turn =
  turn_role :: string
  turn_content :: string

record image_part =
  img_mimeType :: string
  img_data :: string

record tool_call =
  call_name :: jsval
  call_args :: jsval
  call_result :: jsval

record 'w loop_state =
  world :: 'w
  current :: response
  charts :: "jsval list"
  toolCalls :: "tool_call list"
  videoCards :: "jsval list"

record chat_result =
  res_text :: string
  res_charts :: "jsval list"
  res_toolCalls :: "tool_call list"
  res_videoCards :: "jsval list"

text \<open>\<open>parts.find((p) => p.functionCall)\<close>: reading the property throws on a \<open>null\<close> part.\<close>

fun find_part :: "jsval list \<Rightarrow> js_error + jsval" where
  "find_part [] = Inr JUndefined"
| "find_part (p # ps) =
     (if nullish p then Inl TypeError
      else if truthy (get p ''functionCall'') then Inr p
      else find_part ps)"

text \<open>
  \<open>const parts = response.candidates?.[0]?.content?.parts || [];\<close> then \<open>find\<close>, which only
  an array has. The first read, \<open>response.candidates\<close>, is not optional and throws on a
  \<open>null\<close> or \<open>undefined\<close> response.
\<close>

definition find_call :: "jsval \<Rightarrow> js_error + jsval" where
  "find_call b =
     (if nullish b then Inl TypeError
      else case js_or (get (get (get_index (get b ''candidates'') 0) ''content'') ''parts'') (JArr []) of
             JArr ps \<Rightarrow> find_part ps
           | _ \<Rightarrow> Inl TypeError)"

text \<open>The payload sent back to the model in place of the raw tool result.\<close>

definition resultForGemini :: "jsval \<Rightarrow> jsval" where
  "resultForGemini toolResult =
     (if truthy (get toolResult ''_imageType'') then
        JObj [(''success'', JBool True), (''imageGenerated'', JBool True),
              (''prompt'', get toolResult ''prompt''), (''mimeType'', get toolResult ''mimeType'')]
      else if truthy (get toolResult ''_chartType'') then
        JObj [(''success'', JBool True), (''chartGenerated'', JBool True),
              (''chartType'', get toolResult ''_chartType''),
              (''dataPoints'', get (get toolResult ''data'') ''length'')]
      else if truthy (get toolResult ''_videoType'') then
        JObj [(''success'', JBool True), (''videoFound'', JBool True),
              (''title'', get toolResult ''title''), (''url'', get toolResult ''url'')]
      else toolResult)"

definition functionResponse :: "jsval \<Rightarrow> jsval \<Rightarrow> jsval" where
  "functionResponse nm payload =
     JArr [JObj [(''functionResponse'',
                  JObj [(''name'', nm), (''response'', JObj [(''result'', payload)])])]]"

text \<open>\<open>for (let round = 0; round < 8; round++) { ... }\<close>\<close>

function tool_loop :: "'w chat_host \<Rightarrow> nat \<Rightarrow> 'w loop_state \<Rightarrow> js_error + 'w loop_state" where
  "tool_loop H rnd st =
     (if rnd < 8 then
        (case find_call (resp_body (current st)) of
           Inl e \<Rightarrow> Inl e
         | Inr funcCall \<Rightarrow>
             if \<not> truthy funcCall then Inr st
             else
               let fc = get funcCall ''functionCall'';
                   nm = get fc ''name'';
                   ar = get fc ''args''
               in (case executeFn H (world st) nm ar of
                     (Inl e, w1) \<Rightarrow> Inl e
                   | (Inr toolResult, w1) \<Rightarrow>
                       let calls = toolCalls st @ [\<lparr> call_name = nm, call_args = ar, call_result = toolResult \<rparr>];
                           cs = (if truthy (get toolResult ''_chartType'') \<or> truthy (get toolResult ''_imageType'')
                                 then charts st @ [toolResult] else charts st);
                           vs = (if truthy (get toolResult ''_videoType'')
                                 then videoCards st @ [toolResult] else videoCards st)
                       in (case sendMessage H w1 (functionResponse nm (resultForGemini toolResult)) of
                             (Inl e, w2) \<Rightarrow> Inl e
                           | (Inr r, w2) \<Rightarrow>
                               tool_loop H (rnd + 1)
                                 \<lparr> world = w2, current = r, charts = cs, toolCalls = calls, videoCards = vs \<rparr>)))
      else Inr st)"
  by pat_completeness auto
termination
  by (relation "measure (\<lambda>(H, rnd, st). 8 - rnd)") auto

text \<open>The history handed to the session, and the first message.\<close>

definition baseHistory :: "turn list \<Rightarrow> jsval list" where
  "baseHistory history =
     map (\<lambda>m. JObj [(''role'', JStr (if turn_role m = ''user'' then ''user'' else ''model'')),
                     (''parts'', JArr [JObj [(''text'', JStr (turn_content m))]])]) history"

definition chatHistory :: "string \<Rightarrow> turn list \<Rightarrow> jsval list" where
  "chatHistory systemInstruction history =
     (if systemInstruction \<noteq> [] then
        [JObj [(''role'', JStr ''user''),
               (''parts'', JArr [JObj [(''text'',
                  JStr (''Follow these instructions in every response:'' @ [CHR 0x0A, CHR 0x0A] @ systemInstruction))]])],
         JObj [(''role'', JStr ''model''),
               (''parts'', JArr [JObj [(''text'', JStr (''Got it! I'' @ [CHR 0x27] @ ''ll follow those instructions.''))]])]]
        @ baseHistory history
      else baseHistory history)"

definition textContent :: "string list option \<Rightarrow> string \<Rightarrow> string" where
  "textContent csvHeaders newMessage =
     (case csvHeaders of
        None \<Rightarrow> newMessage
      | Some hs \<Rightarrow> if hs = [] then newMessage
                   else ''[CSV columns: '' @ join '', '' hs @ '']'' @ [CHR 0x0A, CHR 0x0A] @ newMessage)"

definition msgParts :: "image_part list \<Rightarrow> string \<Rightarrow> jsval" where
  "msgParts imageParts txt =
     JArr (map (\<lambda>img. JObj [(''inlineData'',
                  JObj [(''mimeType'', JStr (img_mimeType img)), (''data'', JStr (img_data img))])]) imageParts
           @ [JObj [(''text'', JStr txt)]])"

text \<open>
  \<open>loadSystemPrompt\<close> with the module variable \<open>cachedPrompt\<close>, \<open>None\<close> for its initial
  \<open>null\<close>: a non-empty cached prompt is returned; otherwise the file is fetched, and any
  failure gives the empty prompt.
\<close>

definition loadSystemPrompt :: "'w chat_host \<Rightarrow> string option \<Rightarrow> 'w \<Rightarrow> string \<times> string option \<times> 'w" where
  "loadSystemPrompt H cachedPrompt w =
     (if cachedPrompt \<noteq> None \<and> cachedPrompt \<noteq> Some [] then (the cachedPrompt, cachedPrompt, w)
      else case fetch_prompt H w of
             (Inl e, w1) \<Rightarrow> ([], Some [], w1)
           | (Inr (ok, body), w1) \<Rightarrow> (let p = (if ok then trim body else []) in (p, Some p, w1)))"

definition chatWithTools ::
  "'w chat_host \<Rightarrow> string option \<Rightarrow> 'w \<Rightarrow> turn list \<Rightarrow> string \<Rightarrow> string list option \<Rightarrow> jsval
     \<Rightarrow> image_part list \<Rightarrow> js_error + chat_result \<times> string option \<times> 'w" where
  "chatWithTools H cachedPrompt w history newMessage csvHeaders toolDeclarations imageParts =
     (case loadSystemPrompt H cachedPrompt w of
        (systemInstruction, cached, w0) \<Rightarrow>
          (let w1 = startChat H w0 toolDeclarations (chatHistory systemInstruction history)
           in case sendMessage H w1 (msgParts imageParts (textContent csvHeaders newMessage)) of
                (Inl e, w2) \<Rightarrow> Inl e
              | (Inr r, w2) \<Rightarrow>
                  (case tool_loop H 0 \<lparr> world = w2, current = r, charts = [], toolCalls = [], videoCards = [] \<rparr> of
                     Inl e \<Rightarrow> Inl e
                   | Inr st \<Rightarrow>
                       Inr (\<lparr> res_text = resp_text (current st), res_charts = charts st,
                              res_toolCalls = toolCalls st, res_videoCards = videoCards st \<rparr>,
                            cached, world st))))"

text \<open>What a conversation asks of the session and of the callback.\<close>

definition requests_call :: "response \<Rightarrow> bool" where
  "requests_call r = (case find_call (resp_body r) of Inr p \<Rightarrow> truthy p | Inl e \<Rightarrow> False)"

definition always_requests_call :: "'w chat_host \<Rightarrow> bool" where
  "always_requests_call H =
     (\<forall>w m. \<exists>r w'. sendMessage H w m = (Inr r, w') \<and> requests_call r)"

definition callback_returns :: "'w chat_host \<Rightarrow> bool" where
  "callback_returns H = (\<forall>w nm ar. \<exists>v w'. executeFn H w nm ar = (Inr v, w'))"

text \<open>The response held by a state answers the function response of its last tool call.\<close>

definition answers_last_call :: "'w chat_host \<Rightarrow> 'w loop_state \<Rightarrow> bool" where
  "answers_last_call H st =
     (\<exists>w. sendMessage H w (functionResponse (call_name (last (toolCalls st)))
                                             (resultForGemini (call_result (last (toolCalls st)))))
            = (Inr (current st), world st))"

text \<open>A tool call record holds what the callback returned for its name and arguments.\<close>

definition recorded :: "'w chat_host \<Rightarrow> tool_call \<Rightarrow> bool" where
  "recorded H c = (\<exists>w0 w1. executeFn H w0 (call_name c) (call_args c) = (Inr (call_result c), w1))"

text \<open>
  A session for concrete runs: the world counts the messages sent and the callback
  invocations, every response asks for \<open>play_video\<close> and its text is the number of
  messages sent; the callback returns a video card.
\<close>

definition calling_response :: "nat \<Rightarrow> response" where
  "calling_response n =
     \<lparr> resp_body = JObj [(''candidates'', JArr [JObj [(''content'', JObj [(''parts'',
                      JArr [JObj [(''functionCall'',
                              JObj [(''name'', JStr ''play_video''), (''args'', JObj [])])]])])]])],
       resp_text = digits n \<rparr>"

definition calling_host :: "(nat \<times> nat) chat_host" where
  "calling_host =
     \<lparr> fetch_prompt = (\<lambda>w. (Inr (True, '' Answer briefly. ''), w)),
       startChat = (\<lambda>w d h. w),
       sendMessage = (\<lambda>w m. (Inr (calling_response (fst w + 1)), (fst w + 1, snd w))),
       executeFn = (\<lambda>w nm ar. (Inr (JObj [(''_videoType'', JStr ''youtube''), (''title'', JStr ''T''),
                                          (''url'', JStr ''U'')]), (fst w, snd w + 1))) \<rparr>"

text \<open>The same session with a callback that rejects, as the image generation does on a failed request.\<close>

definition rejecting_host :: "(nat \<times> nat) chat_host" where
  "rejecting_host =
     \<lparr> fetch_prompt = (\<lambda>w. (Inr (True, '' Answer briefly. ''), w)),
       startChat = (\<lambda>w d h. w),
       sendMessage = (\<lambda>w m. (Inr (calling_response (fst w + 1)), (fst w + 1, snd w))),
       executeFn = (\<lambda>w nm ar. (Inl (Error ''Image generation failed''), (fst w, snd w + 1))) \<rparr>"

section \<open>The video list navigator\<close>

text \<open>
  \<open>server/index.js\<close>, from \<open>const tabs = ...\<close> to the \<open>No videos found\<close> error.
  \<open>for (const x of v)\<close> iterates an array or the characters of a string and throws on
  any other value.
\<close>

fun iterate :: "jsval \<Rightarrow> js_error + jsval list" where
  "iterate (JArr xs) = Inr xs"
| "iterate (JStr s) = Inr (map (\<lambda>c. JStr [c]) s)"
| "iterate _ = Inl TypeError"

text \<open>\<open>xs.filter((c) => f(c)).map((c) => f(c))\<close>: only an array has \<open>filter\<close>.\<close>

definition project :: "(jsval \<Rightarrow> jsval) \<Rightarrow> jsval \<Rightarrow> js_error + jsval list" where
  "project f container =
     (case container of
        JArr cs \<Rightarrow> Inr (map f (filter (\<lambda>c. truthy (f c)) cs))
      | _ \<Rightarrow> Inl TypeError)"

definition richItem :: "jsval \<Rightarrow> jsval" where
  "richItem c = get (get (get c ''richItemRenderer'') ''content'') ''videoRenderer''"

definition gridItem :: "jsval \<Rightarrow> jsval" where
  "gridItem it = get it ''gridVideoRenderer''"

definition section_items :: "jsval \<Rightarrow> jsval" where
  "section_items section =
     js_or (get (get (get_index (get (get section ''itemSectionRenderer'') ''contents'') 0) ''gridRenderer'') ''items'')
           (JArr [])"

text \<open>The inner loop over the sections; \<open>vr\<close> is the variable \<open>videoRenderers\<close>.\<close>

fun scan_sections :: "jsval list \<Rightarrow> jsval list \<Rightarrow> js_error + jsval list" where
  "scan_sections [] vr = Inr vr"
| "scan_sections (section # rest) vr =
     (case project gridItem (section_items section) of
        Inl e \<Rightarrow> Inl e
      | Inr vs \<Rightarrow> if vs \<noteq> [] then Inr vs else scan_sections rest vs)"

text \<open>The body of the loop over the tabs: the new \<open>videoRenderers\<close> and whether it broke.\<close>

definition scan_tab :: "jsval \<Rightarrow> jsval list \<Rightarrow> js_error + (jsval list \<times> bool)" where
  "scan_tab tab vr =
     (let tabR = get tab ''tabRenderer''
      in if \<not> truthy tabR then Inr (vr, False)
         else
           let richGrid = get (get tabR ''content'') ''richGridRenderer'';
               modern = truthy (get (get richGrid ''contents'') ''length'')
           in case (if modern then project richItem (get richGrid ''contents'') else Inr vr) of
                Inl e \<Rightarrow> Inl e
              | Inr vr1 \<Rightarrow>
                  if modern \<and> vr1 \<noteq> [] then Inr (vr1, True)
                  else
                    let sectionList = get (get tabR ''content'') ''sectionListRenderer''
                    in if truthy sectionList then
                         (case iterate (js_or (get sectionList ''contents'') (JArr [])) of
                            Inl e \<Rightarrow> Inl e
                          | Inr sections \<Rightarrow>
                              (case scan_sections sections vr1 of
                                 Inl e \<Rightarrow> Inl e
                               | Inr vr2 \<Rightarrow> Inr (vr2, vr2 \<noteq> [])))
                       else Inr (vr1, False))"

fun scan_tabs :: "jsval list \<Rightarrow> jsval list \<Rightarrow> js_error + jsval list" where
  "scan_tabs [] vr = Inr vr"
| "scan_tabs (tab # rest) vr =
     (case scan_tab tab vr of
        Inl e \<Rightarrow> Inl e
      | Inr (vr1, broke) \<Rightarrow> if broke then Inr vr1 else scan_tabs rest vr1)"

definition no_videos_message :: string where
  "no_videos_message =
     ''No videos found. Make sure the URL points to a public YouTube channel (e.g. https://www.youtube.com/@channelname).''"

definition navigate :: "jsval \<Rightarrow> js_error + jsval list" where
  "navigate ytData =
     (case iterate (js_or (get (get (get ytData ''contents'') ''twoColumnBrowseResultsRenderer'') ''tabs'') (JArr [])) of
        Inl e \<Rightarrow> Inl e
      | Inr tabs \<Rightarrow>
          (case scan_tabs tabs [] of
             Inl e \<Rightarrow> Inl e
           | Inr videoRenderers \<Rightarrow>
               if videoRenderers = [] then Inl (Error no_videos_message) else Inr videoRenderers))"

text \<open>
  The page as the specification reads it, written without the loops above: the
  tab/container combinations in scanning order, each with what reading it gives, the
  video entries it holds in page order or the failure of reading a value that is no list.
  A tab with a renderer contributes its grid container, then each section of its
  sectioned list. The navigator is to return the first combination that is not an
  empty list.
\<close>

definition path :: "jsval \<Rightarrow> string list \<Rightarrow> jsval" where
  "path v ks = foldl get v ks"

fun elements_of :: "jsval \<Rightarrow> jsval list option" where
  "elements_of (JArr xs) = Some xs"
| "elements_of (JStr s) = Some (map (\<lambda>c. JStr [c]) s)"
| "elements_of _ = None"

definition container_entries :: "(jsval \<Rightarrow> jsval) \<Rightarrow> jsval \<Rightarrow> js_error + jsval list" where
  "container_entries f c =
     (case c of JArr cs \<Rightarrow> Inr (map f (filter (\<lambda>x. truthy (f x)) cs)) | _ \<Rightarrow> Inl TypeError)"

definition grid_container :: "jsval \<Rightarrow> js_error + jsval list" where
  "grid_container tab =
     (let c = path tab [''tabRenderer'', ''content'', ''richGridRenderer'', ''contents'']
      in if truthy (path c [''length''])
         then container_entries (\<lambda>x. path x [''richItemRenderer'', ''content'', ''videoRenderer'']) c
         else Inr [])"

definition section_container :: "jsval \<Rightarrow> js_error + jsval list" where
  "section_container sec =
     container_entries (\<lambda>x. path x [''gridVideoRenderer''])
       (js_or (path (get_index (path sec [''itemSectionRenderer'', ''contents'']) 0) [''gridRenderer'', ''items''])
              (JArr []))"

definition legacy_containers :: "jsval \<Rightarrow> (js_error + jsval list) list" where
  "legacy_containers tab =
     (let sl = path tab [''tabRenderer'', ''content'', ''sectionListRenderer'']
      in if truthy sl then
           (case elements_of (js_or (path sl [''contents'']) (JArr [])) of
              None \<Rightarrow> [Inl TypeError]
            | Some ss \<Rightarrow> map section_container ss)
         else [])"

definition tab_containers :: "jsval \<Rightarrow> (js_error + jsval list) list" where
  "tab_containers tab =
     (if truthy (path tab [''tabRenderer'']) then grid_container tab # legacy_containers tab else [])"

definition containers :: "jsval \<Rightarrow> (js_error + jsval list) list" where
  "containers ytData =
     (case elements_of (js_or (path ytData [''contents'', ''twoColumnBrowseResultsRenderer'', ''tabs'']) (JArr [])) of
        None \<Rightarrow> [Inl TypeError]
      | Some ts \<Rightarrow> concat (map tab_containers ts))"

definition first_filled :: "(js_error + jsval list) list \<Rightarrow> (js_error + jsval list) option" where
  "first_filled cs = find (\<lambda>c. c \<noteq> Inr []) cs"

definition scan_outcome :: "(js_error + jsval list) list \<Rightarrow> js_error + jsval list" where
  "scan_outcome cs = (case first_filled cs of None \<Rightarrow> Inr [] | Some r \<Rightarrow> r)"

text \<open>
  Pages for concrete runs. \<open>sample_page\<close>: a first tab without renderer, then
  \<open>sample_tab\<close>, holding a grid of two videos around a continuation item and a sectioned
  list of one video. \<open>legacy_page\<close>: a tab whose grid holds only a continuation item and
  whose sectioned list has a section without grid before a section of two videos, then a
  tab with a grid of one video. \<open>empty_page\<close>: a tab with an empty grid and a section
  without videos. \<open>broken_page\<close>: a tab whose sectioned list is a number.
\<close>

definition video_entry :: "string \<Rightarrow> jsval" where
  "video_entry vid = JObj [(''videoId'', JStr vid), (''title'', JObj [(''simpleText'', JStr (''Video '' @ vid))])]"

definition rich_item :: "string \<Rightarrow> jsval" where
  "rich_item vid = JObj [(''richItemRenderer'', JObj [(''content'', JObj [(''videoRenderer'', video_entry vid)])])]"

definition continuation_item :: jsval where
  "continuation_item = JObj [(''continuationItemRenderer'', JObj [])]"

definition grid_section :: "string list \<Rightarrow> jsval" where
  "grid_section vids =
     JObj [(''itemSectionRenderer'', JObj [(''contents'', JArr [
       JObj [(''gridRenderer'', JObj [(''items'', JArr (map (\<lambda>vid. JObj [(''gridVideoRenderer'', video_entry vid)]) vids))])]])])]"

definition tab_of :: "jsval list \<Rightarrow> jsval \<Rightarrow> jsval" where
  "tab_of grid sectionContents =
     JObj [(''tabRenderer'', JObj [(''content'', JObj [
       (''richGridRenderer'', JObj [(''contents'', JArr grid)]),
       (''sectionListRenderer'', JObj [(''contents'', sectionContents)])])])]"

definition page_of :: "jsval list \<Rightarrow> jsval" where
  "page_of tabs = JObj [(''contents'', JObj [(''twoColumnBrowseResultsRenderer'', JObj [(''tabs'', JArr tabs)])])]"

definition sample_tab :: jsval where
  "sample_tab = tab_of [rich_item ''g1'', continuation_item, rich_item ''g2''] (JArr [grid_section [''s1'']])"

definition sample_page :: jsval where
  "sample_page = page_of [JObj [(''expandableTabRenderer'', JObj [])], sample_tab]"

definition legacy_page :: jsval where
  "legacy_page =
     page_of [tab_of [continuation_item]
                (JArr [JObj [(''itemSectionRenderer'', JObj [(''contents'', JArr [JObj [(''shelfRenderer'', JObj [])]])])],
                       grid_section [''s1'', ''s2'']]),
              tab_of [rich_item ''g9''] (JArr [])]"

definition empty_page :: jsval where
  "empty_page = page_of [tab_of [] (JArr [grid_section []])]"

definition broken_page :: jsval where
  "broken_page = page_of [tab_of [] (JNum 5)]"

section \<open>The embedded data extractor\<close>

text \<open>
  \<open>server/index.js\<close>:
  \<^verbatim>\<open>const match =
    html.match(/var ytInitialData\s*=\s*(\{.+?\});\s*<\/script>/s) ||
    html.match(/ytInitialData\s*=\s*(\{.+?\});\s*(?:var |<\/script>)/s);\<close>
  Strings are lists of code units below 256. Both patterns have the shape: a keyword,
  white space, \<open>=\<close>, white space, the group \<open>{\<close> \<open>.+?\<close> \<open>}\<close>, then \<open>;\<close>, white space and one of
  some terminators. With the flag \<open>s\<close> the dot matches every character.
\<close>

text \<open>What follows the lazy body: \<open>\};\s*(?:e1|e2|...)\<close>.\<close>

definition terminated :: "string list \<Rightarrow> string \<Rightarrow> bool" where
  "terminated ends t =
     (prefix ''};'' t \<and> list_ex (\<lambda>e. prefix e (dropWhile is_space (drop 2 t))) ends)"

text \<open>
  \<open>.+?\<close> followed by a continuation: one character, then as few more as make the
  continuation match. The result is the text matched by \<open>.+?\<close>, after \<open>acc\<close>.
\<close>

fun lazy_any :: "(string \<Rightarrow> bool) \<Rightarrow> string \<Rightarrow> string \<Rightarrow> string option" where
  "lazy_any cont acc [] = None"
| "lazy_any cont acc (c # t) = (if cont t then Some (acc @ [c]) else lazy_any cont (acc @ [c]) t)"

text \<open>
  A match of the pattern starting at the head of \<open>t\<close>; the result is the group. The
  greedy \<open>\s*\<close> takes all the white space, for the character after it is never a space.
\<close>

definition assignment_at :: "string \<Rightarrow> string list \<Rightarrow> string \<Rightarrow> string option" where
  "assignment_at kw ends t =
     (if prefix kw t then
        (case dropWhile is_space (drop (length kw) t) of
           [] \<Rightarrow> None
         | c1 # r1 \<Rightarrow>
             if c1 = CHR ''='' then
               (case dropWhile is_space r1 of
                  [] \<Rightarrow> None
                | c2 # r2 \<Rightarrow>
                    if c2 = CHR ''{'' then
                      map_option (\<lambda>b. ''{'' @ b @ ''}'') (lazy_any (terminated ends) [] r2)
                    else None)
             else None)
      else None)"

text \<open>\<open>html.match(re)\<close> without the flag \<open>g\<close>: the match at the leftmost start.\<close>

fun first_match :: "(string \<Rightarrow> 'a option) \<Rightarrow> string \<Rightarrow> 'a option" where
  "first_match m [] = m []"
| "first_match m (c # t) = (case m (c # t) of Some x \<Rightarrow> Some x | None \<Rightarrow> first_match m t)"

definition match_script :: "string \<Rightarrow> string option" where
  "match_script html = first_match (assignment_at ''var ytInitialData'' [''</script>'']) html"

definition match_var :: "string \<Rightarrow> string option" where
  "match_var html = first_match (assignment_at ''ytInitialData'' [''var '', ''</script>'']) html"

text \<open>\<open>match[1]\<close> of \<open>a || b\<close>.\<close>

definition html_match :: "string \<Rightarrow> string option" where
  "html_match html = (case match_script html of Some g \<Rightarrow> Some g | None \<Rightarrow> match_var html)"

definition extraction_message :: string where
  "extraction_message =
     ''Could not extract ytInitialData. The channel may not exist or YouTube blocked the request.''"

definition parse_message :: string where
  "parse_message = ''Failed to parse ytInitialData JSON.''"

text \<open>
  The extraction; \<open>JSON_parse\<close> is the language's \<open>JSON.parse\<close>, \<open>None\<close> where it throws.
\<close>

definition extract_data :: "(string \<Rightarrow> jsval option) \<Rightarrow> string \<Rightarrow> js_error + jsval" where
  "extract_data JSON_parse html =
     (case html_match html of
        None \<Rightarrow> Inl (Error extraction_message)
      | Some g \<Rightarrow>
          (case JSON_parse g of
             None \<Rightarrow> Inl (Error parse_message)
           | Some ytData \<Rightarrow> Inr ytData))"

text \<open>
  The patterns as languages: \<open>w\<close> is in the pattern, with group \<open>g\<close>, when it is the
  keyword, spaces, \<open>=\<close>, spaces, \<open>{\<close>, a non-empty body, \<open>};\<close>, spaces and a terminator,
  and \<open>g\<close> is the body in its braces. A page contains a match when one of its substrings
  is in the pattern.
\<close>

definition pattern_group :: "string \<Rightarrow> string list \<Rightarrow> string \<Rightarrow> string \<Rightarrow> bool" where
  "pattern_group kw ends w g =
     (\<exists>ws1 ws2 b ws3 e.
        w = kw @ ws1 @ ''='' @ ws2 @ ''{'' @ b @ ''};'' @ ws3 @ e
        \<and> g = ''{'' @ b @ ''}''
        \<and> list_all is_space ws1 \<and> list_all is_space ws2 \<and> list_all is_space ws3
        \<and> b \<noteq> [] \<and> e \<in> set ends)"

definition contains_match :: "string \<Rightarrow> string list \<Rightarrow> string \<Rightarrow> bool" where
  "contains_match kw ends html = (\<exists>pre w post g. html = pre @ w @ post \<and> pattern_group kw ends w g)"

text \<open>
  The match a search takes, stated on the page alone. An occurrence of a pattern at the
  head of a text is a prefix of the text that is in the pattern. The first occurrence of
  a pattern in a page is the occurrence at the leftmost position that has one and, among
  the occurrences at this position, the one with the shortest group (the body is lazy).
  The selected group is the group of the first occurrence of the \<open></script>\<close>-terminated
  pattern when the page has one, and that of the \<open>var\<close>-terminated pattern otherwise.
\<close>

definition occurrence_at :: "string \<Rightarrow> string list \<Rightarrow> string \<Rightarrow> string \<Rightarrow> bool" where
  "occurrence_at kw ends t g = (\<exists>w post. t = w @ post \<and> pattern_group kw ends w g)"

definition first_occurrence :: "string \<Rightarrow> string list \<Rightarrow> string \<Rightarrow> string \<Rightarrow> bool" where
  "first_occurrence kw ends html g =
     (\<exists>pre t. html = pre @ t
        \<and> occurrence_at kw ends t g
        \<and> (\<forall>g'. occurrence_at kw ends t g' \<longrightarrow> length g \<le> length g')
        \<and> (\<forall>pre' t' g'. html = pre' @ t' \<and> length pre' < length pre \<longrightarrow> \<not> occurrence_at kw ends t' g'))"

definition selected_group :: "string \<Rightarrow> string \<Rightarrow> bool" where
  "selected_group html g =
     (first_occurrence ''var ytInitialData'' [''</script>''] html g
      \<or> (\<not> contains_match ''var ytInitialData'' [''</script>''] html
         \<and> first_occurrence ''ytInitialData'' [''var '', ''</script>''] html g))"

text \<open>The terminators of both patterns start with a character that is not a space.\<close>

definition proper_ends :: "string list \<Rightarrow> bool" where
  "proper_ends ends = list_all (\<lambda>e. e \<noteq> [] \<and> \<not> is_space (hd e)) ends"

text \<open>A page and a parser for concrete runs.\<close>

definition sample_blob :: string where
  "sample_blob = ''{'' @ [CHR 0x22] @ ''contents'' @ [CHR 0x22] @ '':{}}''"

definition sample_html :: string where
  "sample_html =
     ''<html><script>var meta = {};</script><script>var ytInitialData = '' @ sample_blob
     @ '';</script></html>''"

definition sample_parse :: "string \<Rightarrow> jsval option" where
  "sample_parse g = (if g = sample_blob then Some (JObj [(''contents'', JObj [])]) else None)"

text \<open>
  Further pages: one where the \<open>var\<close>-terminated pattern occurs before the only
  occurrence of the \<open></script>\<close>-terminated one, one with two blobs, one without the
  variable, and one whose blob is no JSON; and a parser that accepts a single text.
\<close>

definition parse_only :: "string \<Rightarrow> string \<Rightarrow> jsval option" where
  "parse_only blob g = (if g = blob then Some (JStr blob) else None)"

definition priority_page :: string where
  "priority_page = ''<script>ytInitialData = {a}; var x = 1; var ytInitialData = {b};</script>''"

definition lazy_page :: string where
  "lazy_page = ''<script>var t = 0; var ytInitialData = {a};</script><script>var ytInitialData = {b};</script>''"

definition missing_page :: string where
  "missing_page = ''<html><body>Not found</body></html>''"

definition broken_html :: string where
  "broken_html = ''<script>ytInitialData = {broken}; var x;</script>''"

section \<open>The video enricher\<close>

text \<open>
  \<open>parseInt(v, 10)\<close>: the argument is converted to a string; leading white space and one
  sign are skipped; the longest run of decimal digits is the value; without a digit the
  result is \<open>NaN\<close>.
\<close>

definition is_digit :: "char \<Rightarrow> bool" where
  "is_digit c = (48 \<le> (of_char c :: nat) \<and> (of_char c :: nat) \<le> 57)"

definition digits_value :: "string \<Rightarrow> nat" where
  "digits_value ds = foldl (\<lambda>a c. 10 * a + ((of_char c :: nat) - 48)) 0 ds"

definition parseInt :: "jsval \<Rightarrow> jsval" where
  "parseInt v =
     (let s = dropWhile is_space (to_string v);
          neg = (s \<noteq> [] \<and> hd s = CHR ''-'');
          r = (if s \<noteq> [] \<and> (hd s = CHR ''-'' \<or> hd s = CHR ''+'') then tl s else s);
          ds = takeWhile is_digit r
      in if ds = [] then JNaN
         else JNum (if neg then - int (digits_value ds) else int (digits_value ds)))"

text \<open>The record built for each video, \<open>videoData\<close>.\<close>

record videoData =
  vd_video_id :: jsval
  vd_title :: jsval
  vd_video_url :: string
  vd_thumbnail :: jsval
  vd_duration :: jsval
  vd_published_time_text :: jsval
  vd_view_count_text :: jsval
  vd_description :: jsval
  vd_release_date :: jsval
  vd_view_count :: jsval
  vd_like_count :: jsval
  vd_comment_count :: jsval
  vd_transcript :: string

text \<open>
  The collaborators of an ingestion run, acting on a world \<open>'w\<close>: the page fetch, the
  language's \<open>JSON.parse\<close>, the per-video info lookup, the subtitle command and the file
  system.
\<close>

record page_response =
  page_ok :: bool
  page_status :: nat
  page_text :: string

record exec_call =
  exec_command :: string
  exec_arguments :: "string list"
  exec_timeout :: nat

record 'w ingest_host =
  fetch :: "'w \<Rightarrow> string \<Rightarrow> (js_error + page_response) \<times> 'w"
  json_parse :: "string \<Rightarrow> jsval option"
  getInfo :: "'w \<Rightarrow> string \<Rightarrow> (js_error + jsval) \<times> 'w"
  tmpdir :: string
  execFile :: "'w \<Rightarrow> exec_call \<Rightarrow> 'w"
  existsSync :: "'w \<Rightarrow> string \<Rightarrow> bool"
  readFileSync :: "'w \<Rightarrow> string \<Rightarrow> js_error + string"
  unlinkSync :: "'w \<Rightarrow> string \<Rightarrow> 'w"

text \<open>
  \<open>v?.slice(-1)[0]?.url\<close>: the chain stops on \<open>null\<close> and \<open>undefined\<close>; an array gives its
  last element, a string its last character; nothing else has \<open>slice\<close>.
\<close>

fun last_url :: "jsval \<Rightarrow> js_error + jsval" where
  "last_url JUndefined = Inr JUndefined"
| "last_url JNull = Inr JUndefined"
| "last_url (JArr xs) = Inr (if xs = [] then JUndefined else get (last xs) ''url'')"
| "last_url (JStr s) = Inr JUndefined"
| "last_url _ = Inl TypeError"

text \<open>\<open>v.slice(0, 1000)\<close>.\<close>

fun slice_1000 :: "jsval \<Rightarrow> js_error + jsval" where
  "slice_1000 (JStr s) = Inr (JStr (take 1000 s))"
| "slice_1000 (JArr xs) = Inr (JArr (take 1000 xs))"
| "slice_1000 _ = Inl TypeError"

text \<open>
  The second way to the comment count: the first engagement panel whose header text,
  without its commas, starts with a number. The result is the count, if one was found.
\<close>

definition panel_text :: "jsval \<Rightarrow> jsval" where
  "panel_text panel =
     get (get_index (get (get (get (get (get panel ''engagementPanelSectionListRenderer'') ''header'')
            ''engagementPanelTitleHeaderRenderer'') ''contextualInfo'') ''runs'') 0) ''text''"

fun scan_panels :: "jsval list \<Rightarrow> js_error + jsval option" where
  "scan_panels [] = Inr None"
| "scan_panels (panel # rest) =
     (let countText = panel_text panel
      in if truthy countText then
           (case countText of
              JStr s \<Rightarrow>
                (let n = parseInt (JStr (filter (\<lambda>c. c \<noteq> CHR '','') s))
                 in if n \<noteq> JNaN then Inr (Some n) else scan_panels rest)
            | _ \<Rightarrow> Inl TypeError)
         else scan_panels rest)"

text \<open>The transcript: all segment texts, joined, white space collapsed, at most 5000 characters.\<close>

fun flat_segments :: "jsval list \<Rightarrow> js_error + jsval list" where
  "flat_segments [] = Inr []"
| "flat_segments (e # es) =
     (if nullish e then Inl TypeError
      else case js_or (get e ''segs'') (JArr []) of
             JArr segs \<Rightarrow>
               if list_ex nullish segs then Inl TypeError
               else (case flat_segments es of
                       Inl err \<Rightarrow> Inl err
                     | Inr others \<Rightarrow> Inr (map (\<lambda>sg. get sg ''utf8'') segs @ others))
           | _ \<Rightarrow> Inl TypeError)"

function collapse_spaces :: "string \<Rightarrow> string" where
  "collapse_spaces [] = []"
| "collapse_spaces (c # cs) =
     (if is_space c then CHR '' '' # collapse_spaces (dropWhile is_space cs)
      else c # collapse_spaces cs)"
  by pat_completeness auto
termination
  by (relation "measure length") (auto simp: length_dropWhile_le less_Suc_eq_le)

definition transcript_text :: "jsval \<Rightarrow> js_error + string" where
  "transcript_text json =
     (if nullish json then Inl TypeError
      else case js_or (get json ''events'') (JArr []) of
             JArr evs \<Rightarrow>
               (case flat_segments evs of
                  Inl e \<Rightarrow> Inl e
                | Inr texts \<Rightarrow>
                    Inr (take 5000 (trim (collapse_spaces
                           (map (\<lambda>c. if c = CHR 0x0A then CHR '' '' else c)
                              (join '' '' (map to_string (filter truthy texts))))))))
           | _ \<Rightarrow> Inl TypeError)"

definition subtitle_call :: "string \<Rightarrow> string \<Rightarrow> exec_call" where
  "subtitle_call tmpBase videoId =
     \<lparr> exec_command = ''yt-dlp'',
       exec_arguments = [''--skip-download'', ''--write-auto-sub'', ''--sub-lang'', ''en'',
                         ''--sub-format'', ''json3'', ''-o'', tmpBase,
                         ''https://www.youtube.com/watch?v='' @ videoId],
       exec_timeout = 20000 \<rparr>"

text \<open>
  The transcript step, a \<open>try\<close> with an empty \<open>catch\<close>: a throw leaves the record and the
  world as they are at that point.
\<close>

definition transcript_step :: "'w ingest_host \<Rightarrow> 'w \<Rightarrow> string \<Rightarrow> videoData \<Rightarrow> videoData \<times> 'w" where
  "transcript_step H w videoId vd =
     (let tmpBase = tmpdir H @ ''/yt_sub_'' @ videoId;
          w1 = execFile H w (subtitle_call tmpBase videoId);
          subFile = tmpBase @ ''.en.json3''
      in if existsSync H w1 subFile then
           (case readFileSync H w1 subFile of
              Inl e \<Rightarrow> (vd, w1)
            | Inr file_content \<Rightarrow>
                (case json_parse H file_content of
                   None \<Rightarrow> (vd, w1)
                 | Some json \<Rightarrow>
                     (case transcript_text json of
                        Inl e \<Rightarrow> (vd, w1)
                      | Inr txt \<Rightarrow>
                          ((if txt \<noteq> [] then vd\<lparr> vd_transcript := txt \<rparr> else vd),
                           unlinkSync H w1 subFile))))
         else (vd, w1))"

text \<open>
  The enrichment of one record, the outer \<open>try\<close>: the assignments happen one after the
  other, and a throw keeps those already made. The result tells whether the transcript
  step is still to run.
\<close>

definition enrich_counts :: "jsval \<Rightarrow> jsval \<Rightarrow> jsval \<Rightarrow> videoData \<Rightarrow> videoData \<times> bool" where
  "enrich_counts info title0 thumbnailUrl vd =
     (if nullish info \<or> nullish (get info ''videoDetails'') then (vd, False)
      else
        let details = get info ''videoDetails'';
            vd1 = vd\<lparr> vd_title := js_or (get details ''title'') title0 \<rparr>
        in case slice_1000 (js_or (get details ''shortDescription'') (JStr [])) of
             Inl e \<Rightarrow> (vd1, False)
           | Inr d \<Rightarrow>
               let vd2 = vd1\<lparr> vd_description := d,
                               vd_release_date := js_or (get details ''publishDate'') (JStr []),
                               vd_view_count := (if truthy (get details ''viewCount'')
                                                 then parseInt (get details ''viewCount'') else JNull),
                               vd_like_count := (if \<not> nullish (get details ''likes'')
                                                 then parseInt (get details ''likes'') else JNull) \<rparr>
               in case last_url (get details ''thumbnails'') of
                    Inl e \<Rightarrow> (vd2, False)
                  | Inr u \<Rightarrow>
                      let vd3 = vd2\<lparr> vd_thumbnail := js_or u thumbnailUrl \<rparr>;
                          ccRaw = get (get (get info ''player_response'') ''videoDetails'') ''commentCount''
                      in if \<not> nullish ccRaw then (vd3\<lparr> vd_comment_count := parseInt ccRaw \<rparr>, True)
                         else
                           (case iterate (js_or (get (get info ''response'') ''engagementPanels'') (JArr [])) of
                              Inl e \<Rightarrow> (vd3, False)
                            | Inr panels \<Rightarrow>
                                (case scan_panels panels of
                                   Inl e \<Rightarrow> (vd3, False)
                                 | Inr None \<Rightarrow> (vd3, True)
                                 | Inr (Some n) \<Rightarrow> (vd3\<lparr> vd_comment_count := n \<rparr>, True))))"

definition enrich :: "'w ingest_host \<Rightarrow> 'w \<Rightarrow> string \<Rightarrow> jsval \<Rightarrow> jsval \<Rightarrow> videoData \<Rightarrow> videoData \<times> 'w" where
  "enrich H w videoId title0 thumbnailUrl vd =
     (case getInfo H w (''https://www.youtube.com/watch?v='' @ videoId) of
        (Inl e, w1) \<Rightarrow> (vd, w1)
      | (Inr info, w1) \<Rightarrow>
          (case enrich_counts info title0 thumbnailUrl vd of
             (vd1, False) \<Rightarrow> (vd1, w1)
           | (vd1, True) \<Rightarrow> transcript_step H w1 videoId vd1))"

text \<open>A count is \<open>null\<close>, \<open>NaN\<close> or an integer.\<close>

fun is_count :: "jsval \<Rightarrow> bool" where
  "is_count JNull = True"
| "is_count JNaN = True"
| "is_count (JNum n) = True"
| "is_count _ = False"

definition counts_ok :: "videoData \<Rightarrow> bool" where
  "counts_ok vd = (is_count (vd_view_count vd) \<and> is_count (vd_like_count vd) \<and> is_count (vd_comment_count vd))"

section \<open>The ingestion run\<close>

text \<open>
  The events written to the response: \<open>{type: 'progress', current, total, percent}\<close>,
  \<open>{type: 'done', videos}\<close> and \<open>{type: 'error', message}\<close>, the last with the error
  whose message it carries.
\<close>

datatype event = Progress nat rat int | Done "videoData list" | Failed js_error

text \<open>
  \<open>Math.round(((i + 1) / limit) * 100)\<close> in double precision: the quotient and the
  product are each rounded to the nearest double, ties to the even significand
  (the operands stay far inside the range of the normal doubles), and \<open>Math.round\<close>
  rounds to the nearest integer, ties upwards.
\<close>

function bit_length :: "int \<Rightarrow> int" where
  "bit_length k = (if k \<le> 0 then 0 else 1 + bit_length (k div 2))"
  by pat_completeness auto
termination
  by (relation "measure nat") auto

definition pow2 :: "int \<Rightarrow> rat" where
  "pow2 e = (if 0 \<le> e then 2 ^ nat e else 1 / 2 ^ nat (- e))"

text \<open>The exponent \<open>e\<close> with \<open>2^e \<le> x < 2^(e+1)\<close>, for positive \<open>x\<close>.\<close>

definition exponent :: "rat \<Rightarrow> int" where
  "exponent x =
     (let (p, q) = quotient_of x;
          e = bit_length p - bit_length q
      in if x < pow2 e then e - 1 else e)"

definition round_even :: "rat \<Rightarrow> int" where
  "round_even r =
     (let f = \<lfloor>r\<rfloor>; d = r - of_int f
      in if d < 1 / 2 then f else if 1 / 2 < d then f + 1 else if even f then f else f + 1)"

definition fl :: "rat \<Rightarrow> rat" where
  "fl x =
     (if x = 0 then 0
      else let u = pow2 (exponent \<bar>x\<bar> - 52)
           in sgn x * of_int (round_even (\<bar>x\<bar> / u)) * u)"

definition Math_round :: "rat \<Rightarrow> int" where
  "Math_round x = \<lfloor>x + 1 / 2\<rfloor>"

definition js_percent :: "nat \<Rightarrow> rat \<Rightarrow> int" where
  "js_percent c L = Math_round (fl (fl (of_nat c / L) * 100))"

text \<open>\<open>url.replace(/\/+$/, '')\<close>, then \<open>/videos\<close> unless it is there.\<close>

definition channelUrl :: "string \<Rightarrow> string" where
  "channelUrl url =
     (let channelBase = rev (dropWhile (\<lambda>c. c = CHR ''/'') (rev url))
      in if suffix ''/videos'' channelBase then channelBase else channelBase @ ''/videos'')"

text \<open>Fetch, extract, navigate: the part of the run before the loop.\<close>

definition locate :: "'w ingest_host \<Rightarrow> 'w \<Rightarrow> string \<Rightarrow> (js_error + jsval list) \<times> 'w" where
  "locate H w url =
     (case fetch H w (channelUrl url) of
        (Inl e, w1) \<Rightarrow> (Inl e, w1)
      | (Inr pageResponse, w1) \<Rightarrow>
          if \<not> page_ok pageResponse then
            (Inl (Error (''Failed to fetch channel page: HTTP '' @ digits (page_status pageResponse))), w1)
          else
            (case extract_data (json_parse H) (page_text pageResponse) of
               Inl e \<Rightarrow> (Inl e, w1)
             | Inr ytData \<Rightarrow> (navigate ytData, w1)))"

text \<open>The display fields of an entry; reading the thumbnail can throw.\<close>

definition initial_videoData :: "jsval \<Rightarrow> js_error + videoData" where
  "initial_videoData vr =
     (let videoId = get vr ''videoId'';
          title0 = js_or (js_or (get (get_index (get (get vr ''title'') ''runs'') 0) ''text'')
                                (get (get vr ''title'') ''simpleText'')) (JStr [])
      in case last_url (get (get vr ''thumbnail'') ''thumbnails'') of
           Inl e \<Rightarrow> Inl e
         | Inr u \<Rightarrow>
             Inr \<lparr> vd_video_id = videoId,
                   vd_title = title0,
                   vd_video_url = ''https://www.youtube.com/watch?v='' @ to_string videoId,
                   vd_thumbnail = js_or u (JStr []),
                   vd_duration = js_or (get (get vr ''lengthText'') ''simpleText'') (JStr []),
                   vd_published_time_text = js_or (get (get vr ''publishedTimeText'') ''simpleText'') (JStr []),
                   vd_view_count_text = js_or (js_or (get (get vr ''viewCountText'') ''simpleText'')
                                                     (get (get vr ''shortViewCountText'') ''simpleText'')) (JStr []),
                   vd_description = JStr [],
                   vd_release_date = JStr [],
                   vd_view_count = JNull,
                   vd_like_count = JNull,
                   vd_comment_count = JNull,
                   vd_transcript = [] \<rparr>)"

text \<open>
  \<open>for (let i = 0; i < limit; i++) { ... }\<close>: the events sent so far, the videos pushed so
  far and the world go round the loop; a throw leaves the loop with the events sent.
\<close>

function ingest_loop ::
  "'w ingest_host \<Rightarrow> rat \<Rightarrow> jsval list \<Rightarrow> nat \<Rightarrow> event list \<Rightarrow> videoData list \<Rightarrow> 'w
     \<Rightarrow> (event list \<times> 'w) \<times> (js_error + videoData list)" where
  "ingest_loop H L vrs i evs videos w =
     (if of_nat i < L then
        (let vr = get_index (JArr vrs) i;
             videoId = get vr ''videoId''
         in if \<not> truthy videoId then ingest_loop H L vrs (i + 1) evs videos w
            else
              let evs1 = evs @ [Progress (i + 1) L (js_percent (i + 1) L)]
              in case initial_videoData vr of
                   Inl e \<Rightarrow> ((evs1, w), Inl e)
                 | Inr vd \<Rightarrow>
                     (case enrich H w (to_string videoId) (vd_title vd) (vd_thumbnail vd) vd of
                        (vd1, w1) \<Rightarrow> ingest_loop H L vrs (i + 1) evs1 (videos @ [vd1]) w1))
      else ((evs, w), Inr videos))"
  by pat_completeness auto
termination
  apply (relation "measure (\<lambda>(H, L, vrs, i, evs, videos, w). nat \<lceil>L\<rceil> - i)")
    apply simp
   apply (simp, linarith)
  apply (simp, linarith)
  done

text \<open>The handler, for a request with a \<open>url\<close>: the \<open>try\<close> block and its \<open>catch\<close>.\<close>

definition ingest_body ::
  "'w ingest_host \<Rightarrow> 'w \<Rightarrow> string \<Rightarrow> jsnum option \<Rightarrow> (event list \<times> 'w) \<times> (js_error + videoData list)" where
  "ingest_body H w url maxVideos =
     (case locate H w url of
        (Inl e, w1) \<Rightarrow> (([], w1), Inl e)
      | (Inr videoRenderers, w1) \<Rightarrow>
          (case limit (length videoRenderers) maxVideos of
             Fin L \<Rightarrow> ingest_loop H L videoRenderers 0 [] [] w1
           | _ \<Rightarrow> (([], w1), Inr [])))"

definition ingest :: "'w ingest_host \<Rightarrow> 'w \<Rightarrow> string \<Rightarrow> jsnum option \<Rightarrow> event list \<times> 'w" where
  "ingest H w url maxVideos =
     (case ingest_body H w url maxVideos of
        ((evs, w1), Inl e) \<Rightarrow> (evs @ [Failed e], w1)
      | ((evs, w1), Inr videos) \<Rightarrow> (evs @ [Done videos], w1))"

text \<open>The positions at which the loop, from index \<open>i\<close> on, starts an entry.\<close>

definition has_id :: "jsval list \<Rightarrow> nat \<Rightarrow> bool" where
  "has_id vrs i = truthy (get (get_index (JArr vrs) i) ''videoId'')"

definition started :: "rat \<Rightarrow> jsval list \<Rightarrow> nat \<Rightarrow> nat list" where
  "started L vrs i = map Suc (filter (has_id vrs) [i..<nat \<lceil>L\<rceil>])"

definition progress_event :: "rat \<Rightarrow> nat \<Rightarrow> event" where
  "progress_event L c = Progress c L (js_percent c L)"

fun current_of :: "event \<Rightarrow> nat option" where
  "current_of (Progress c t p) = Some c"
| "current_of _ = None"

fun is_terminal :: "event \<Rightarrow> bool" where
  "is_terminal (Progress c t p) = False"
| "is_terminal _ = True"

text \<open>
  A host for concrete runs. The world is the file system, a list of paths with their
  contents. Every fetch answers 200 with the page \<open>html\<close>; \<open>info\<close> answers the info
  lookups; the subtitle command writes, for the video URL it is given, the content
  \<open>subs\<close> has for it, if any, to the expected file.
\<close>

definition file_host ::
  "string \<Rightarrow> (string \<Rightarrow> jsval option) \<Rightarrow> (string \<Rightarrow> js_error + jsval) \<Rightarrow> (string \<Rightarrow> string option)
     \<Rightarrow> (string \<times> string) list ingest_host" where
  "file_host html parser info subs =
     \<lparr> fetch = (\<lambda>w u. (Inr \<lparr> page_ok = True, page_status = 200, page_text = html \<rparr>, w)),
       json_parse = parser,
       getInfo = (\<lambda>w u. (info u, w)),
       tmpdir = ''/tmp'',
       execFile = (\<lambda>w c. case subs (last (exec_arguments c)) of
                             None \<Rightarrow> w
                           | Some written \<Rightarrow> (exec_arguments c ! 7 @ ''.en.json3'', written) # w),
       existsSync = (\<lambda>w f. map_of w f \<noteq> None),
       readFileSync = (\<lambda>w f. case map_of w f of None \<Rightarrow> Inl (Error ''ENOENT'') | Some c \<Rightarrow> Inr c),
       unlinkSync = (\<lambda>w f. filter (\<lambda>kv. fst kv \<noteq> f) w) \<rparr>"

text \<open>A page whose grid holds the given entries, and a parser that reads it from the sample blob.\<close>

definition grid_page :: "jsval list \<Rightarrow> jsval" where
  "grid_page entries =
     JObj [(''contents'', JObj [(''twoColumnBrowseResultsRenderer'', JObj [(''tabs'', JArr [
       JObj [(''tabRenderer'', JObj [(''content'', JObj [
         (''richGridRenderer'', JObj [(''contents'',
            JArr (map (\<lambda>v. JObj [(''richItemRenderer'', JObj [(''content'', JObj [(''videoRenderer'', v)])])])
                      entries))])])])]])])])]"

definition grid_parser :: "jsval list \<Rightarrow> string \<Rightarrow> jsval option" where
  "grid_parser entries g = (if g = sample_blob then Some (grid_page entries) else None)"

definition unavailable :: "string \<Rightarrow> js_error + jsval" where
  "unavailable u = Inl (Error ''Video unavailable'')"

definition no_subtitles :: "string \<Rightarrow> string option" where
  "no_subtitles u = None"

text \<open>The counts of the records of a \<open>done\<close> event, and values for concrete runs.\<close>

fun done_counts :: "event \<Rightarrow> (jsval \<times> jsval \<times> jsval) list" where
  "done_counts (Done vs) = map (\<lambda>v. (vd_view_count v, vd_like_count v, vd_comment_count v)) vs"
| "done_counts _ = []"

definition sample_info :: "string \<Rightarrow> js_error + jsval" where
  "sample_info u =
     Inr (JObj [(''videoDetails'', JObj [(''title'', JStr ''Title''), (''viewCount'', JStr ''N/A''),
                                         (''likes'', JNum 5)]),
                (''response'', JObj [(''engagementPanels'', JArr [
                   JObj [(''engagementPanelSectionListRenderer'', JObj [(''header'', JObj [
                     (''engagementPanelTitleHeaderRenderer'', JObj [(''contextualInfo'', JObj [
                        (''runs'', JArr [JObj [(''text'', JStr ''1,234'')]])])])])])]])])])"

definition blank_videoData :: videoData where
  "blank_videoData =
     \<lparr> vd_video_id = JStr ''a'', vd_title = JStr [], vd_video_url = ''https://www.youtube.com/watch?v=a'',
       vd_thumbnail = JStr [], vd_duration = JStr [], vd_published_time_text = JStr [],
       vd_view_count_text = JStr [], vd_description = JStr [], vd_release_date = JStr [],
       vd_view_count = JNull, vd_like_count = JNull, vd_comment_count = JNull, vd_transcript = [] \<rparr>"

definition caption_parser :: "string \<Rightarrow> jsval option" where
  "caption_parser g =
     (if g = ''CAPTIONS'' then
        Some (JObj [(''events'', JArr [
          JObj [(''segs'', JArr [JObj [(''utf8'', JStr ''Hello  '')], JObj [(''utf8'', JStr [CHR 0x0A])]])],
          JObj [],
          JObj [(''segs'', JArr [JObj [(''utf8'', JStr ''world'')]])]])])
      else None)"

section \<open>Properties of the item limit\<close>

lemma limit_finite: "\<exists>r. limit len mv = Fin r"
  by (cases mv; cases "Number_maxVideos mv") (auto simp: limit_def)

text \<open>Nothing bounds the limit by 100 when more entries are available.\<close>

lemma limit_above_hundred: "limit 150 (Some (Fin 120)) = Fin 120"
  by (simp add: limit_def)

text \<open>
  C1, as stated, fails: a request for zero videos against twenty available entries is
  served with a limit of ten, where clamping zero into \<open>[1, 100]\<close> gives one.
\<close>

theorem limit_zero_counterexample:
  "limit 20 (Some (Fin 0)) = Fin 10 \<and> spec_limit 20 (Some 0) = 1
   \<and> limit 20 (Some (Fin 0)) \<noteq> Fin (spec_limit 20 (Some 0))"
  by (simp add: limit_def spec_limit_def)

text \<open>
  C1, amended: the requested maximum is 10 when \<open>maxVideos\<close> is absent, not a number or
  zero, and the coerced value otherwise; whenever it does not exceed 100 the limit is
  the minimum of the number of available entries and the requested maximum clamped into
  \<open>[1, 100]\<close>.
\<close>

theorem limit_clamped:
  "limit len None = Fin (spec_limit len None)
   \<and> limit len (Some NaN) = Fin (spec_limit len (Some 10))
   \<and> limit len (Some (Fin 0)) = Fin (spec_limit len (Some 10))
   \<and> limit len (Some NegInf) = Fin (spec_limit len (Some 1))
   \<and> (r \<noteq> 0 \<and> r \<le> 100 \<longrightarrow> limit len (Some (Fin r)) = Fin (spec_limit len (Some r)))"
  by (simp add: limit_def spec_limit_def)

theorem limit_clamped_witness:
  "(3::rat) \<noteq> 0 \<and> (3::rat) \<le> 100 \<and> limit 5 (Some (Fin 3)) = Fin 3 \<and> spec_limit 5 (Some 3) = 3"
  using limit_clamped [of 5 3] by (simp add: spec_limit_def)

section \<open>Properties of the JSON tool executor\<close>
















text \<open>
  C9: without data (\<open>undefined\<close>, \<open>null\<close> or an empty array) the executor returns the
  object \<open>{error: 'No JSON data loaded.'}\<close>, whatever the tool name and the arguments;
  with a non-empty array and a tool name other than the three it knows it returns an
  error object naming the tool. Both are returned, not thrown, and carry none of the
  marker fields.
\<close>

theorem executeJsonTool_total:
  "executeJsonTool h stats plot toolName args Data_undefined = Inr (error_object ''No JSON data loaded.'')
   \<and> executeJsonTool h stats plot toolName args Data_null = Inr (error_object ''No JSON data loaded.'')
   \<and> executeJsonTool h stats plot toolName args (Data_array []) = Inr (error_object ''No JSON data loaded.'')
   \<and> (data \<noteq> [] \<and> toolName \<notin> {''compute_stats_json'', ''plot_metric_vs_time'', ''play_video''}
        \<longrightarrow> executeJsonTool h stats plot toolName args (Data_array data)
              = Inr (error_object (''Unknown JSON tool: '' @ toolName)))
   \<and> get (error_object msg) ''_chartType'' = JUndefined
   \<and> get (error_object msg) ''_imageType'' = JUndefined
   \<and> get (error_object msg) ''_videoType'' = JUndefined
   \<and> get (error_object msg) ''error'' = JStr msg"
  by (simp add: executeJsonTool_def error_object_def)

theorem executeJsonTool_total_witness:
  "[JObj []] \<noteq> []
   \<and> ''generateImage'' \<notin> {''compute_stats_json'', ''plot_metric_vs_time'', ''play_video''}
   \<and> executeJsonTool plain_host no_branch no_branch ''generateImage'' JNull (Data_array [JObj []])
       = Inr (JObj [(''error'', JStr ''Unknown JSON tool: generateImage'')])"
  using executeJsonTool_total [of plain_host no_branch no_branch "''generateImage''" JNull "[JObj []]"]
  by (simp add: error_object_def)




section \<open>Properties of the tool orchestration loop\<close>

text \<open>
  C5, as stated, fails: a result with \<open>_chartType\<close> that also carries \<open>_imageType\<close> is
  mapped to the image payload, since the markers are tested in the order image, chart,
  video.
\<close>

theorem resultForGemini_two_markers_counterexample:
  "resultForGemini (JObj [(''_imageType'', JStr ''generated''), (''_chartType'', JStr ''scatter''),
                          (''data'', JArr [JObj [], JObj []])])
     = JObj [(''success'', JBool True), (''imageGenerated'', JBool True),
             (''prompt'', JUndefined), (''mimeType'', JUndefined)]
   \<and> resultForGemini (JObj [(''_imageType'', JStr ''generated''), (''_chartType'', JStr ''scatter''),
                          (''data'', JArr [JObj [], JObj []])])
     \<noteq> JObj [(''success'', JBool True), (''chartGenerated'', JBool True),
             (''chartType'', JStr ''scatter''), (''dataPoints'', JNum 2)]"
  by (simp add: resultForGemini_def)

text \<open>
  C5, amended: the payload sent back to the model is determined by the marker fields,
  a marker being a field with a truthy value, tested in the order \<open>_imageType\<close>,
  \<open>_chartType\<close>, \<open>_videoType\<close>: with \<open>_imageType\<close> it is
  \<open>{success: true, imageGenerated: true, prompt, mimeType}\<close>; otherwise with \<open>_chartType\<close> it is
  \<open>{success: true, chartGenerated: true, chartType, dataPoints}\<close>, where \<open>dataPoints\<close> is the
  length of the result's data array; otherwise with \<open>_videoType\<close> it is
  \<open>{success: true, videoFound: true, title, url}\<close>; none of these three includes the result's
  \<open>data\<close>; a result with no marker is passed through unchanged.
\<close>

theorem resultForGemini_by_marker:
  "(truthy (get r ''_imageType'') \<longrightarrow>
      resultForGemini r = JObj [(''success'', JBool True), (''imageGenerated'', JBool True),
                                (''prompt'', get r ''prompt''), (''mimeType'', get r ''mimeType'')])
   \<and> (\<not> truthy (get r ''_imageType'') \<and> truthy (get r ''_chartType'') \<longrightarrow>
      resultForGemini r = JObj [(''success'', JBool True), (''chartGenerated'', JBool True),
                                (''chartType'', get r ''_chartType''),
                                (''dataPoints'', get (get r ''data'') ''length'')])
   \<and> (\<forall>xs. get r ''data'' = JArr xs \<longrightarrow> get (get r ''data'') ''length'' = JNum (int (length xs)))
   \<and> (\<not> truthy (get r ''_imageType'') \<and> \<not> truthy (get r ''_chartType'') \<and> truthy (get r ''_videoType'') \<longrightarrow>
      resultForGemini r = JObj [(''success'', JBool True), (''videoFound'', JBool True),
                                (''title'', get r ''title''), (''url'', get r ''url'')])
   \<and> (truthy (get r ''_imageType'') \<or> truthy (get r ''_chartType'') \<or> truthy (get r ''_videoType'') \<longrightarrow>
      get (resultForGemini r) ''data'' = JUndefined)
   \<and> (\<not> truthy (get r ''_imageType'') \<and> \<not> truthy (get r ''_chartType'') \<and> \<not> truthy (get r ''_videoType'') \<longrightarrow>
      resultForGemini r = r)"
  by (simp add: resultForGemini_def)

theorem resultForGemini_by_marker_witness:
  "\<not> truthy (get (JObj [(''_chartType'', JStr ''scatter''), (''data'', JArr [JObj [], JObj []]),
                         (''metric'', JStr ''view_count'')]) ''_imageType'')
   \<and> truthy (get (JObj [(''_chartType'', JStr ''scatter''), (''data'', JArr [JObj [], JObj []]),
                         (''metric'', JStr ''view_count'')]) ''_chartType'')
   \<and> resultForGemini (JObj [(''_chartType'', JStr ''scatter''), (''data'', JArr [JObj [], JObj []]),
                            (''metric'', JStr ''view_count'')])
       = JObj [(''success'', JBool True), (''chartGenerated'', JBool True),
               (''chartType'', JStr ''scatter''), (''dataPoints'', JNum 2)]
   \<and> resultForGemini (JObj [(''rows'', JNum 3)]) = JObj [(''rows'', JNum 3)]"
  using resultForGemini_by_marker [of "JObj [(''_chartType'', JStr ''scatter''), (''data'', JArr [JObj [], JObj []]),
                            (''metric'', JStr ''view_count'')]"]
        resultForGemini_by_marker [of "JObj [(''rows'', JNum 3)]"]
  by simp

lemma tool_loop_step:
  assumes "rnd < 8"
    and "find_call (resp_body (current st)) = Inr p" and "truthy p"
    and "executeFn H (world st) (get (get p ''functionCall'') ''name'') (get (get p ''functionCall'') ''args'')
           = (Inr v, w1)"
    and "sendMessage H w1 (functionResponse (get (get p ''functionCall'') ''name'') (resultForGemini v)) = (Inr r, w2)"
  shows "tool_loop H rnd st =
           tool_loop H (rnd + 1)
             \<lparr> world = w2, current = r,
               charts = (if truthy (get v ''_chartType'') \<or> truthy (get v ''_imageType'')
                         then charts st @ [v] else charts st),
               toolCalls = toolCalls st @ [\<lparr> call_name = get (get p ''functionCall'') ''name'',
                                              call_args = get (get p ''functionCall'') ''args'',
                                              call_result = v \<rparr>],
               videoCards = (if truthy (get v ''_videoType'') then videoCards st @ [v] else videoCards st) \<rparr>"
  using assms by (subst tool_loop.simps) (simp add: Let_def)

lemma tool_loop_done: "\<not> rnd < 8 \<Longrightarrow> tool_loop H rnd st = Inr st"
  by (subst tool_loop.simps) simp

lemma tool_loop_runs_out:
  assumes "always_requests_call H" and "callback_returns H"
  shows "rnd + k = 8 \<Longrightarrow> requests_call (current st) \<Longrightarrow> (0 < rnd \<Longrightarrow> answers_last_call H st) \<Longrightarrow>
         list_all (recorded H) (toolCalls st) \<Longrightarrow>
         \<exists>st'. tool_loop H rnd st = Inr st'
              \<and> length (toolCalls st') = length (toolCalls st) + k
              \<and> list_all (recorded H) (toolCalls st')
              \<and> (0 < rnd + k \<longrightarrow> answers_last_call H st')"
proof (induction k arbitrary: rnd st)
  case 0
  then have "tool_loop H rnd st = Inr st" by (simp add: tool_loop_done)
  with 0 show ?case by simp
next
  case (Suc k)
  then have rnd: "rnd < 8" by simp
  from Suc.prems(2) obtain p where p: "find_call (resp_body (current st)) = Inr p" "truthy p"
    by (auto simp: requests_call_def split: sum.splits)
  let ?nm = "get (get p ''functionCall'') ''name''"
  let ?ar = "get (get p ''functionCall'') ''args''"
  from assms(2) obtain v w1 where v: "executeFn H (world st) ?nm ?ar = (Inr v, w1)"
    unfolding callback_returns_def by blast
  from assms(1) obtain r w2 where r: "sendMessage H w1 (functionResponse ?nm (resultForGemini v)) = (Inr r, w2)"
    and rc: "requests_call r"
    unfolding always_requests_call_def by blast
  let ?st = "\<lparr> world = w2, current = r,
               charts = (if truthy (get v ''_chartType'') \<or> truthy (get v ''_imageType'')
                         then charts st @ [v] else charts st),
               toolCalls = toolCalls st @ [\<lparr> call_name = ?nm, call_args = ?ar, call_result = v \<rparr>],
               videoCards = (if truthy (get v ''_videoType'') then videoCards st @ [v] else videoCards st) \<rparr>"
  have step: "tool_loop H rnd st = tool_loop H (rnd + 1) ?st"
    using rnd p v r by (rule tool_loop_step)
  have ans: "answers_last_call H ?st"
    unfolding answers_last_call_def using r by auto
  have "recorded H \<lparr> call_name = ?nm, call_args = ?ar, call_result = v \<rparr>"
    unfolding recorded_def using v by auto
  with Suc.prems(4) have rec: "list_all (recorded H) (toolCalls ?st)" by simp
  from Suc.prems(1) have "(rnd + 1) + k = 8" by simp
  from Suc.IH [OF this, of ?st] rc ans rec
  obtain st' where st': "tool_loop H (rnd + 1) ?st = Inr st'"
    "length (toolCalls st') = length (toolCalls ?st) + k"
    "list_all (recorded H) (toolCalls st')"
    "0 < rnd + 1 + k \<longrightarrow> answers_last_call H st'"
    by auto
  with step show ?case by auto
qed

text \<open>
  C4, as stated, fails: the callback is awaited without a \<open>try\<close>, so with a model that
  asks for a function call in every response and a callback that rejects, the first
  invocation ends \<open>chatWithTools\<close> with the thrown error.
\<close>

theorem callback_rejects_counterexample:
  "always_requests_call rejecting_host
   \<and> chatWithTools rejecting_host None (0, 0) [] ''hi'' None (JArr []) []
       = Inl (Error ''Image generation failed'')"
proof -
  have "always_requests_call rejecting_host"
    by (simp add: always_requests_call_def rejecting_host_def requests_call_def calling_response_def
                  find_call_def js_or_def)
  moreover have "chatWithTools rejecting_host None (0, 0) [] ''hi'' None (JArr []) []
       = Inl (Error ''Image generation failed'')"
    by code_simp
  ultimately show ?thesis by (intro conjI)
qed

text \<open>
  C4, amended: when every response of the model carries a function call and the
  callback returns each time it is invoked, \<open>chatWithTools\<close> returns normally with exactly
  eight tool call records, one per invocation of the callback and each holding what the
  callback returned, and its text is the text of the response that answered the
  function response of the eighth call.
\<close>

theorem chatWithTools_round_budget:
  assumes "always_requests_call H" and "callback_returns H"
  shows "\<exists>res cached w'.
           chatWithTools H cachedPrompt w history newMessage csvHeaders toolDeclarations imageParts
             = Inr (res, cached, w')
           \<and> length (res_toolCalls res) = 8
           \<and> list_all (recorded H) (res_toolCalls res)
           \<and> (\<exists>w7 r8. sendMessage H w7 (functionResponse (call_name (last (res_toolCalls res)))
                                            (resultForGemini (call_result (last (res_toolCalls res)))))
                          = (Inr r8, w')
                      \<and> res_text res = resp_text r8)"
proof -
  obtain systemInstruction cached w0 where sp: "loadSystemPrompt H cachedPrompt w = (systemInstruction, cached, w0)"
    by (cases "loadSystemPrompt H cachedPrompt w")
  let ?w1 = "startChat H w0 toolDeclarations (chatHistory systemInstruction history)"
  from assms(1) obtain r w2
    where r: "sendMessage H ?w1 (msgParts imageParts (textContent csvHeaders newMessage)) = (Inr r, w2)"
      and rc: "requests_call r"
    unfolding always_requests_call_def by blast
  let ?st = "\<lparr> world = w2, current = r, charts = [], toolCalls = [], videoCards = [] \<rparr>"
  from tool_loop_runs_out [OF assms, of 0 8 ?st] rc
  obtain st' where st': "tool_loop H 0 ?st = Inr st'" "length (toolCalls st') = 8"
    "list_all (recorded H) (toolCalls st')" "answers_last_call H st'"
    by auto
  from sp r st'(1)
  have "chatWithTools H cachedPrompt w history newMessage csvHeaders toolDeclarations imageParts
          = Inr (\<lparr> res_text = resp_text (current st'), res_charts = charts st',
                    res_toolCalls = toolCalls st', res_videoCards = videoCards st' \<rparr>, cached, world st')"
    by (simp add: chatWithTools_def)
  with st'(2,3,4) show ?thesis
    unfolding answers_last_call_def by auto
qed

theorem chatWithTools_round_budget_witness:
  "always_requests_call calling_host \<and> callback_returns calling_host
   \<and> map_sum id (\<lambda>(res, cached, w). (length (res_toolCalls res), res_text res, cached, w))
         (chatWithTools calling_host None (0, 0) [] ''hi'' None (JArr []) [])
       = Inr (8, ''9'', Some ''Answer briefly.'', (9, 8))"
proof -
  have h1: "always_requests_call calling_host"
    by (simp add: always_requests_call_def calling_host_def requests_call_def calling_response_def
                  find_call_def js_or_def)
  have h2: "callback_returns calling_host"
    by (simp add: callback_returns_def calling_host_def)
  have run: "map_sum id (\<lambda>(res, cached, w). (length (res_toolCalls res), res_text res, cached, w))
               (chatWithTools calling_host None (0, 0) [] ''hi'' None (JArr []) [])
             = Inr (8, ''9'', Some ''Answer briefly.'', (9, 8))"
    by code_simp
  from chatWithTools_round_budget [OF h1 h2, of None "(0, 0)" "[]" "''hi''" None "JArr []" "[]"] h1 h2 run
  show ?thesis by simp
qed

section \<open>Properties of the video list navigator\<close>

lemma scan_outcome_Nil: "scan_outcome [] = Inr []"
  by (simp add: scan_outcome_def first_filled_def)

lemma scan_outcome_Cons: "scan_outcome (c # cs) = (if c = Inr [] then scan_outcome cs else c)"
  by (simp add: scan_outcome_def first_filled_def)

lemma scan_outcome_append:
  "scan_outcome (xs @ ys) = (if scan_outcome xs = Inr [] then scan_outcome ys else scan_outcome xs)"
  by (induction xs) (simp_all add: scan_outcome_Nil scan_outcome_Cons)

lemma first_filled_filled: "first_filled cs = Some r \<Longrightarrow> r \<noteq> Inr []"
  by (auto simp: first_filled_def find_Some_iff)

lemma iterate_elements:
  "iterate v = (case elements_of v of None \<Rightarrow> Inl TypeError | Some xs \<Rightarrow> Inr xs)"
  by (cases v) simp_all

lemma project_grid:
  "project richItem c = container_entries (\<lambda>x. path x [''richItemRenderer'', ''content'', ''videoRenderer'']) c"
proof -
  have "richItem = (\<lambda>x. path x [''richItemRenderer'', ''content'', ''videoRenderer''])"
    by (simp add: fun_eq_iff richItem_def path_def)
  then show ?thesis by (simp add: project_def container_entries_def)
qed

lemma project_section: "project gridItem (section_items sec) = section_container sec"
proof -
  have "gridItem = (\<lambda>x. path x [''gridVideoRenderer''])"
    by (simp add: fun_eq_iff gridItem_def path_def)
  then show ?thesis
    by (simp add: project_def container_entries_def section_container_def section_items_def path_def)
qed

text \<open>The loop over the sections gives the first section that is not an empty list.\<close>

lemma scan_sections_outcome: "scan_sections ss [] = scan_outcome (map section_container ss)"
proof (induction ss)
  case Nil
  show ?case by (simp add: scan_outcome_Nil)
next
  case (Cons sec rest)
  show ?case
  proof (cases "section_container sec")
    case (Inl e)
    then show ?thesis by (simp add: project_section scan_outcome_Cons)
  next
    case (Inr vs)
    with Cons show ?thesis by (simp add: project_section scan_outcome_Cons)
  qed
qed

text \<open>The body of the loop over the tabs breaks exactly when the tab gave a non-empty list.\<close>

lemma scan_tab_outcome:
  "scan_tab tab [] = map_sum id (\<lambda>vs. (vs, vs \<noteq> [])) (scan_outcome (tab_containers tab))"
proof (cases "truthy (get tab ''tabRenderer'')")
  case False
  then show ?thesis
    by (simp add: scan_tab_def tab_containers_def path_def scan_outcome_Nil)
next
  case tabR: True
  let ?c = "get (get (get (get tab ''tabRenderer'') ''content'') ''richGridRenderer'') ''contents''"
  let ?sl = "get (get (get tab ''tabRenderer'') ''content'') ''sectionListRenderer''"
  let ?legacy = "if truthy ?sl then
                   (case iterate (js_or (get ?sl ''contents'') (JArr [])) of
                      Inl e \<Rightarrow> Inl e
                    | Inr sections \<Rightarrow>
                        (case scan_sections sections [] of
                           Inl e \<Rightarrow> Inl e
                         | Inr vr2 \<Rightarrow> Inr (vr2, vr2 \<noteq> [])))
                 else Inr ([], False)"
  have cands: "tab_containers tab = grid_container tab # legacy_containers tab"
    using tabR by (simp add: tab_containers_def path_def)
  have grid: "grid_container tab = (if truthy (get ?c ''length'') then project richItem ?c else Inr [])"
    by (simp add: grid_container_def project_grid path_def)
  have legacy: "?legacy = map_sum id (\<lambda>vs. (vs, vs \<noteq> [])) (scan_outcome (legacy_containers tab))"
    by (auto simp: legacy_containers_def path_def iterate_elements scan_sections_outcome
                   scan_outcome_Nil scan_outcome_Cons
             split: option.splits sum.splits)
  have unfold: "scan_tab tab [] =
                  (case grid_container tab of
                     Inl e \<Rightarrow> Inl e
                   | Inr vr1 \<Rightarrow> if vr1 \<noteq> [] then Inr (vr1, True) else ?legacy)"
    using tabR by (auto simp: scan_tab_def Let_def grid split: sum.splits)
  show ?thesis
  proof (cases "grid_container tab")
    case (Inl e)
    then show ?thesis
      unfolding unfold cands by (simp add: scan_outcome_Cons)
  next
    case (Inr vs)
    then show ?thesis
      unfolding unfold cands legacy by (simp add: scan_outcome_Cons)
  qed
qed

lemma scan_tabs_outcome: "scan_tabs ts [] = scan_outcome (concat (map tab_containers ts))"
proof (induction ts)
  case Nil
  show ?case by (simp add: scan_outcome_Nil)
next
  case (Cons tab rest)
  show ?case
  proof (cases "scan_outcome (tab_containers tab)")
    case (Inl e)
    then show ?thesis by (simp add: scan_tab_outcome scan_outcome_append)
  next
    case (Inr vs)
    with Cons show ?thesis by (simp add: scan_tab_outcome scan_outcome_append)
  qed
qed

lemma navigate_outcome:
  "navigate y = (case first_filled (containers y) of None \<Rightarrow> Inl (Error no_videos_message) | Some r \<Rightarrow> r)"
proof -
  let ?tabs = "js_or (get (get (get y ''contents'') ''twoColumnBrowseResultsRenderer'') ''tabs'') (JArr [])"
  show ?thesis
  proof (cases "elements_of ?tabs")
    case None
    then show ?thesis
      by (simp add: navigate_def containers_def path_def iterate_elements first_filled_def)
  next
    case ts: (Some ts)
    then have c: "containers y = concat (map tab_containers ts)"
      by (simp add: containers_def path_def)
    show ?thesis
    proof (cases "first_filled (containers y)")
      case None
      with ts c show ?thesis
        by (simp add: navigate_def iterate_elements scan_tabs_outcome scan_outcome_def)
    next
      case (Some r)
      with first_filled_filled have "r \<noteq> Inr []" by blast
      with Some ts c show ?thesis
        by (cases r) (simp_all add: navigate_def iterate_elements scan_tabs_outcome scan_outcome_def)
    qed
  qed
qed

text \<open>Reading a container fails in one way only, so no container gives the no-videos error.\<close>

lemma container_entries_error: "container_entries f c = Inl e \<Longrightarrow> e = TypeError"
  by (auto simp: container_entries_def split: jsval.splits)

lemma tab_containers_error: "Inl e \<in> set (tab_containers tab) \<Longrightarrow> e = TypeError"
  by (auto simp: tab_containers_def legacy_containers_def grid_container_def section_container_def Let_def
           split: if_splits option.splits
           dest: container_entries_error container_entries_error [OF sym])

lemma containers_error: "Inl e \<in> set (containers y) \<Longrightarrow> e = TypeError"
  by (auto simp: containers_def split: option.splits dest: tab_containers_error)

text \<open>
  C7: the navigator returns the first tab/container combination of the page that is not
  an empty list, the combinations taken tab by tab and within a tab the grid container
  before the sections of the legacy list: it returns a list of video entries exactly
  when that first combination is this list, so a non-empty grid wins over the legacy
  list of its tab; it fails with the no-videos error exactly when every combination is
  an empty list; a container's list keeps the page order of its entries.
\<close>

theorem navigate_first_nonempty:
  "navigate y = (case first_filled (containers y) of None \<Rightarrow> Inl (Error no_videos_message) | Some r \<Rightarrow> r)
   \<and> (navigate y = Inr vs \<longleftrightarrow> first_filled (containers y) = Some (Inr vs))
   \<and> (navigate y = Inr vs \<longleftrightarrow>
        vs \<noteq> [] \<and> (\<exists>before after. containers y = before @ Inr vs # after \<and> (\<forall>c\<in>set before. c = Inr [])))
   \<and> (navigate y = Inl (Error m) \<longleftrightarrow> m = no_videos_message \<and> (\<forall>c\<in>set (containers y). c = Inr []))
   \<and> (truthy (path tab [''tabRenderer'']) \<longrightarrow>
        tab_containers tab = grid_container tab # legacy_containers tab
        \<and> (grid_container tab = Inr vs \<and> vs \<noteq> [] \<longrightarrow> first_filled (tab_containers tab) = Some (Inr vs)))
   \<and> container_entries f (JArr cs) = Inr (map f (filter (\<lambda>c. truthy (f c)) cs))
   \<and> subseq (map f (filter (\<lambda>c. truthy (f c)) cs)) (map f cs)"
proof -
  note a = navigate_outcome [of y]
  have b: "navigate y = Inr vs \<longleftrightarrow> first_filled (containers y) = Some (Inr vs)"
    unfolding a by (auto split: option.splits)
  have c: "first_filled (containers y) = Some (Inr vs) \<longleftrightarrow>
        vs \<noteq> [] \<and> (\<exists>before after. containers y = before @ Inr vs # after \<and> (\<forall>c\<in>set before. c = Inr []))"
  proof
    assume "first_filled (containers y) = Some (Inr vs)"
    then have "\<exists>i<length (containers y). containers y ! i \<noteq> Inr [] \<and> Inr vs = containers y ! i
                 \<and> (\<forall>j<i. \<not> containers y ! j \<noteq> Inr [])"
      unfolding first_filled_def find_Some_iff .
    then obtain i where i0: "i < length (containers y)" "containers y ! i \<noteq> Inr []"
      "Inr vs = containers y ! i" "\<forall>j<i. \<not> containers y ! j \<noteq> Inr []"
      by blast
    from i0(2) i0(3) [symmetric] have "vs \<noteq> []" by simp
    with i0 have i: "i < length (containers y)" "containers y ! i = Inr vs" "vs \<noteq> []"
      "\<forall>j<i. containers y ! j = Inr []"
      by simp_all
    have "containers y = take i (containers y) @ Inr vs # drop (Suc i) (containers y)"
      using i(1,2) by (metis id_take_nth_drop)
    moreover have "\<forall>c\<in>set (take i (containers y)). c = Inr []"
      using i(1,4) by (auto simp: in_set_conv_nth)
    ultimately show "vs \<noteq> [] \<and> (\<exists>before after. containers y = before @ Inr vs # after \<and> (\<forall>c\<in>set before. c = Inr []))"
      using i(3) by blast
  next
    assume "vs \<noteq> [] \<and> (\<exists>before after. containers y = before @ Inr vs # after \<and> (\<forall>c\<in>set before. c = Inr []))"
    then obtain before after where s: "vs \<noteq> []" "containers y = before @ Inr vs # after"
      "\<forall>c\<in>set before. c = Inr []"
      by blast
    have "find (\<lambda>c. c \<noteq> Inr []) (before @ Inr vs # after) = Some (Inr vs)"
      using s(1,3) by (induction before) auto
    with s(2) show "first_filled (containers y) = Some (Inr vs)"
      by (simp add: first_filled_def)
  qed
  have d: "navigate y = Inl (Error m) \<longleftrightarrow> m = no_videos_message \<and> (\<forall>c\<in>set (containers y). c = Inr [])"
  proof (cases "first_filled (containers y)")
    case None
    have "navigate y = Inl (Error no_videos_message)"
      unfolding a None by simp
    moreover from None have "\<forall>c\<in>set (containers y). c = Inr []"
      by (auto simp: first_filled_def find_None_iff)
    ultimately show ?thesis by auto
  next
    case (Some r)
    have n: "navigate y = r"
      unfolding a Some by simp
    from Some have r: "r \<in> set (containers y)" "r \<noteq> Inr []"
      by (auto simp: first_filled_def find_Some_iff)
    with containers_error [of _ y] have "r \<noteq> Inl (Error m)" by auto
    with n r show ?thesis by auto
  qed
  have e: "tab_containers tab = grid_container tab # legacy_containers tab
        \<and> (grid_container tab = Inr vs \<and> vs \<noteq> [] \<longrightarrow> first_filled (tab_containers tab) = Some (Inr vs))"
    if "truthy (path tab [''tabRenderer''])"
    using that by (simp add: tab_containers_def first_filled_def)
  have f: "container_entries f (JArr cs) = Inr (map f (filter (\<lambda>c. truthy (f c)) cs))"
    by (simp add: container_entries_def)
  have g: "subseq (map f (filter (\<lambda>c. truthy (f c)) cs)) (map f cs)"
    by (intro subseq_map subseq_filter_left)
  from b c have c': "navigate y = Inr vs \<longleftrightarrow>
        vs \<noteq> [] \<and> (\<exists>before after. containers y = before @ Inr vs # after \<and> (\<forall>c\<in>set before. c = Inr []))"
    by (rule trans)
  from e have e': "truthy (path tab [''tabRenderer'']) \<longrightarrow>
        tab_containers tab = grid_container tab # legacy_containers tab
        \<and> (grid_container tab = Inr vs \<and> vs \<noteq> [] \<longrightarrow> first_filled (tab_containers tab) = Some (Inr vs))"
    by (rule impI)
  show ?thesis
    apply (rule conjI, rule a)
    apply (rule conjI, rule b)
    apply (rule conjI, rule c')
    apply (rule conjI, rule d)
    apply (rule conjI, rule e')
    apply (rule conjI, rule f)
    apply (rule g)
    done
qed

theorem navigate_first_nonempty_witness:
  "navigate legacy_page = Inr [video_entry ''s1'', video_entry ''s2'']
   \<and> containers legacy_page
       = [Inr [], Inr [], Inr [video_entry ''s1'', video_entry ''s2''], Inr [video_entry ''g9'']]
   \<and> navigate sample_page = Inr [video_entry ''g1'', video_entry ''g2'']
   \<and> truthy (path sample_tab [''tabRenderer''])
   \<and> tab_containers sample_tab = [Inr [video_entry ''g1'', video_entry ''g2''], Inr [video_entry ''s1'']]
   \<and> navigate empty_page = Inl (Error no_videos_message)
   \<and> containers empty_page = [Inr [], Inr []]
   \<and> navigate broken_page = Inl TypeError
   \<and> containers broken_page = [Inr [], Inl TypeError]"
proof -
  have r1: "containers legacy_page
       = [Inr [], Inr [], Inr [video_entry ''s1'', video_entry ''s2''], Inr [video_entry ''g9'']]"
    by code_simp
  have r2: "truthy (path sample_tab [''tabRenderer''])" by code_simp
  have r3: "grid_container sample_tab = Inr [video_entry ''g1'', video_entry ''g2'']" by code_simp
  have r4: "legacy_containers sample_tab = [Inr [video_entry ''s1'']]" by code_simp
  have r5: "containers sample_page = [Inr [video_entry ''g1'', video_entry ''g2''], Inr [video_entry ''s1'']]"
    by code_simp
  have r6: "containers empty_page = [Inr [], Inr []]" by code_simp
  have r7: "containers broken_page = [Inr [], Inl TypeError]" by code_simp
  from navigate_first_nonempty [of legacy_page "[video_entry ''s1'', video_entry ''s2'']" no_videos_message sample_tab]
       navigate_first_nonempty [of sample_page "[video_entry ''g1'', video_entry ''g2'']" no_videos_message sample_tab]
       navigate_first_nonempty [of empty_page "[]" no_videos_message sample_tab]
       navigate_first_nonempty [of broken_page "[]" no_videos_message sample_tab]
       r1 r2 r3 r4 r5 r6 r7
  show ?thesis by (simp add: first_filled_def)
qed

section \<open>Properties of the embedded data extractor\<close>

lemma dropWhile_spaces_eq:
  assumes "\<not> is_space c"
  shows "dropWhile is_space u = c # r \<longleftrightarrow> (\<exists>ws. u = ws @ c # r \<and> list_all is_space ws)"
proof
  assume d: "dropWhile is_space u = c # r"
  have "u = takeWhile is_space u @ dropWhile is_space u" by simp
  with d have "u = takeWhile is_space u @ c # r" by simp
  moreover have "list_all is_space (takeWhile is_space u)"
    by (auto simp: list_all_iff dest: set_takeWhileD)
  ultimately show "\<exists>ws. u = ws @ c # r \<and> list_all is_space ws" by blast
next
  assume "\<exists>ws. u = ws @ c # r \<and> list_all is_space ws"
  then obtain ws where u: "u = ws @ c # r" and ws: "list_all is_space ws" by blast
  from ws have "dropWhile is_space (ws @ c # r) = dropWhile is_space (c # r)"
    by (intro dropWhile_append2) (simp add: list_all_iff)
  with assms u show "dropWhile is_space u = c # r" by simp
qed

lemma prefix_after_spaces:
  assumes "e \<noteq> []" and "\<not> is_space (hd e)"
  shows "prefix e (dropWhile is_space u) \<longleftrightarrow> (\<exists>ws post. u = ws @ e @ post \<and> list_all is_space ws)"
proof -
  from assms obtain c e' where e: "e = c # e'" and c: "\<not> is_space c"
    by (cases e) auto
  have "prefix e (dropWhile is_space u) \<longleftrightarrow> (\<exists>post. dropWhile is_space u = c # (e' @ post))"
    by (auto simp: prefix_def e)
  also have "\<dots> \<longleftrightarrow> (\<exists>post ws. u = ws @ c # (e' @ post) \<and> list_all is_space ws)"
    by (simp add: dropWhile_spaces_eq [OF c])
  also have "\<dots> \<longleftrightarrow> (\<exists>ws post. u = ws @ e @ post \<and> list_all is_space ws)"
    by (auto simp: e)
  finally show ?thesis .
qed

lemma terminated_iff:
  assumes "proper_ends ends"
  shows "terminated ends t \<longleftrightarrow>
           (\<exists>ws e post. t = ''};'' @ ws @ e @ post \<and> list_all is_space ws \<and> e \<in> set ends)"
proof
  assume "terminated ends t"
  then obtain e where p: "prefix ''};'' t" and e: "e \<in> set ends"
    and pe: "prefix e (dropWhile is_space (drop 2 t))"
    by (auto simp: terminated_def list_ex_iff)
  from assms e have "e \<noteq> []" "\<not> is_space (hd e)"
    by (auto simp: proper_ends_def list_all_iff)
  from pe prefix_after_spaces [OF this] obtain ws post
    where d: "drop 2 t = ws @ e @ post" and ws: "list_all is_space ws" by blast
  from p have "t = ''};'' @ drop 2 t" by (auto simp: prefix_def)
  with d have "t = ''};'' @ ws @ e @ post" by simp
  with ws e show "\<exists>ws e post. t = ''};'' @ ws @ e @ post \<and> list_all is_space ws \<and> e \<in> set ends"
    by blast
next
  assume "\<exists>ws e post. t = ''};'' @ ws @ e @ post \<and> list_all is_space ws \<and> e \<in> set ends"
  then obtain ws e post where t: "t = ''};'' @ ws @ e @ post" and ws: "list_all is_space ws"
    and e: "e \<in> set ends" by blast
  from assms e have ne: "e \<noteq> []" "\<not> is_space (hd e)"
    by (auto simp: proper_ends_def list_all_iff)
  from t have "drop 2 t = ws @ e @ post" by simp
  with ws prefix_after_spaces [OF ne] have "prefix e (dropWhile is_space (drop 2 t))" by blast
  with t e show "terminated ends t" by (auto simp: terminated_def list_ex_iff)
qed

lemma lazy_any_sound:
  "lazy_any cont acc t = Some r \<Longrightarrow>
     \<exists>b rest. t = b @ rest \<and> b \<noteq> [] \<and> cont rest \<and> r = acc @ b
        \<and> (\<forall>b' rest'. t = b' @ rest' \<and> b' \<noteq> [] \<and> length b' < length b \<longrightarrow> \<not> cont rest')"
proof (induction t arbitrary: acc)
  case Nil
  then show ?case by simp
next
  case (Cons c t)
  show ?case
  proof (cases "cont t")
    case True
    with Cons.prems have "r = acc @ [c]" by simp
    then have "c # t = [c] @ t \<and> [c] \<noteq> [] \<and> cont t \<and> r = acc @ [c]
        \<and> (\<forall>b' rest'. c # t = b' @ rest' \<and> b' \<noteq> [] \<and> length b' < length [c] \<longrightarrow> \<not> cont rest')"
      using True by (auto simp: Suc_lessI)
    then show ?thesis by blast
  next
    case False
    with Cons.prems have "lazy_any cont (acc @ [c]) t = Some r" by simp
    from Cons.IH [OF this] obtain b rest where b: "t = b @ rest" "b \<noteq> []" "cont rest" "r = (acc @ [c]) @ b"
      and least: "\<forall>b' rest'. t = b' @ rest' \<and> b' \<noteq> [] \<and> length b' < length b \<longrightarrow> \<not> cont rest'"
      by blast
    have "\<not> cont rest'" if "c # t = b' @ rest'" "b' \<noteq> []" "length b' < length (c # b)" for b' rest'
    proof (cases "tl b' = []")
      case True
      with that(1,2) have "rest' = t" by (cases b') auto
      with False show ?thesis by simp
    next
      case tl: False
      from that(1,2) have "t = tl b' @ rest'" by (cases b') auto
      moreover from that(2,3) have "length (tl b') < length b" by (cases b') auto
      ultimately show ?thesis using least tl by blast
    qed
    with b have "c # t = (c # b) @ rest \<and> c # b \<noteq> [] \<and> cont rest \<and> r = acc @ (c # b)
        \<and> (\<forall>b' rest'. c # t = b' @ rest' \<and> b' \<noteq> [] \<and> length b' < length (c # b) \<longrightarrow> \<not> cont rest')"
      by simp
    then show ?thesis by blast
  qed
qed

lemma lazy_any_complete:
  "t = b @ rest \<Longrightarrow> b \<noteq> [] \<Longrightarrow> cont rest \<Longrightarrow> \<exists>r. lazy_any cont acc t = Some r"
proof (induction t arbitrary: acc b)
  case Nil
  then show ?case by simp
next
  case (Cons c t)
  show ?case
  proof (cases "cont t")
    case True
    then show ?thesis by simp
  next
    case False
    from Cons.prems(1,2) obtain b' where b': "b = c # b'" "t = b' @ rest" by (cases b) auto
    with False Cons.prems(3) have "b' \<noteq> []" by auto
    from Cons.IH [OF b'(2) this Cons.prems(3)] False show ?thesis by simp
  qed
qed

lemma assignment_at_sound:
  assumes "assignment_at kw ends t = Some g"
  shows "\<exists>ws1 ws2 b rest. t = kw @ ws1 @ ''='' @ ws2 @ ''{'' @ b @ rest
           \<and> list_all is_space ws1 \<and> list_all is_space ws2 \<and> b \<noteq> []
           \<and> terminated ends rest \<and> g = ''{'' @ b @ ''}''"
proof -
  have eq: "\<not> is_space CHR ''=''" and br: "\<not> is_space CHR ''{''"
    by (simp_all add: is_space_def)
  from assms have kw: "prefix kw t"
    by (auto simp: assignment_at_def split: if_splits)
  with assms obtain r1 where r1: "dropWhile is_space (drop (length kw) t) = CHR ''='' # r1"
    by (auto simp: assignment_at_def split: if_splits list.splits)
  with assms kw obtain r2 where r2: "dropWhile is_space r1 = CHR ''{'' # r2"
    by (auto simp: assignment_at_def split: if_splits list.splits)
  with assms kw r1 obtain b' where b': "lazy_any (terminated ends) [] r2 = Some b'" and g: "g = ''{'' @ b' @ ''}''"
    by (auto simp: assignment_at_def)
  from lazy_any_sound [OF b'] obtain b rest
    where b: "r2 = b @ rest" "b \<noteq> []" "terminated ends rest" "b' = b" by auto
  from r1 dropWhile_spaces_eq [OF eq] obtain ws1
    where ws1: "drop (length kw) t = ws1 @ CHR ''='' # r1" "list_all is_space ws1" by blast
  from r2 dropWhile_spaces_eq [OF br] obtain ws2
    where ws2: "r1 = ws2 @ CHR ''{'' # r2" "list_all is_space ws2" by blast
  from kw have "t = kw @ drop (length kw) t" by (auto simp: prefix_def)
  with ws1 ws2 b have "t = kw @ ws1 @ ''='' @ ws2 @ ''{'' @ b @ rest" by simp
  with ws1(2) ws2(2) b g show ?thesis by blast
qed

lemma assignment_at_complete:
  assumes "t = kw @ ws1 @ ''='' @ ws2 @ ''{'' @ b @ rest"
    and "list_all is_space ws1" and "list_all is_space ws2" and "b \<noteq> []" and "terminated ends rest"
  shows "\<exists>g. assignment_at kw ends t = Some g"
proof -
  have eq: "\<not> is_space CHR ''=''" and br: "\<not> is_space CHR ''{''"
    by (simp_all add: is_space_def)
  from assms(1) have kw: "prefix kw t" and d: "drop (length kw) t = ws1 @ CHR ''='' # (ws2 @ CHR ''{'' # (b @ rest))"
    by simp_all
  from d assms(2) dropWhile_spaces_eq [OF eq]
  have r1: "dropWhile is_space (drop (length kw) t) = CHR ''='' # (ws2 @ CHR ''{'' # (b @ rest))" by blast
  from assms(3) dropWhile_spaces_eq [OF br]
  have r2: "dropWhile is_space (ws2 @ CHR ''{'' # (b @ rest)) = CHR ''{'' # (b @ rest)" by blast
  from lazy_any_complete [of "b @ rest" b rest "terminated ends" "[]"] assms(4,5)
  obtain r where "lazy_any (terminated ends) [] (b @ rest) = Some r"
    by blast
  with kw r1 r2 show ?thesis by (simp add: assignment_at_def)
qed

lemma first_match_sound:
  "first_match m html = Some x \<Longrightarrow>
     \<exists>pre t. html = pre @ t \<and> m t = Some x
        \<and> (\<forall>pre' t'. html = pre' @ t' \<and> length pre' < length pre \<longrightarrow> m t' = None)"
proof (induction html)
  case Nil
  then have "m [] = Some x" by simp
  then have "[] = [] @ [] \<and> m [] = Some x
      \<and> (\<forall>pre' t'. [] = pre' @ t' \<and> length pre' < length ([]::string) \<longrightarrow> m t' = None)" by simp
  then show ?case by (intro exI)
next
  case (Cons c html)
  show ?case
  proof (cases "m (c # html)")
    case (Some y)
    with Cons.prems have "m (c # html) = Some x" by simp
    then have "c # html = [] @ (c # html) \<and> m (c # html) = Some x
      \<and> (\<forall>pre' t'. c # html = pre' @ t' \<and> length pre' < length ([]::string) \<longrightarrow> m t' = None)" by simp
    then show ?thesis by (intro exI)
  next
    case None
    with Cons.prems have "first_match m html = Some x" by simp
    from Cons.IH [OF this] obtain pre t where p1: "html = pre @ t" and p2: "m t = Some x"
      and left: "\<And>pre' t'. html = pre' @ t' \<Longrightarrow> length pre' < length pre \<Longrightarrow> m t' = None" by blast
    have least: "\<forall>pre' t'. c # html = pre' @ t' \<and> length pre' < length (c # pre) \<longrightarrow> m t' = None"
    proof (intro allI impI, elim conjE)
      fix pre' t'
      assume eq: "c # html = pre' @ t'" and len: "length pre' < length (c # pre)"
      show "m t' = None"
      proof (cases pre')
        case Nil
        with eq have "t' = c # html" by simp
        with None show ?thesis by simp
      next
        case (Cons d q)
        with eq have "html = q @ t'" by simp
        moreover from Cons len have "length q < length pre" by simp
        ultimately show ?thesis by (rule left)
      qed
    qed
    from p1 have "c # html = (c # pre) @ t" by simp
    with p2 least have "c # html = (c # pre) @ t \<and> m t = Some x
      \<and> (\<forall>pre' t'. c # html = pre' @ t' \<and> length pre' < length (c # pre) \<longrightarrow> m t' = None)"
      by (intro conjI)
    then show ?thesis by (intro exI)
  qed
qed

lemma first_match_complete:
  "html = pre @ t \<Longrightarrow> m t = Some x \<Longrightarrow> \<exists>y. first_match m html = Some y"
proof (induction html arbitrary: pre)
  case Nil
  then show ?case by simp
next
  case (Cons c html)
  show ?case
  proof (cases pre)
    case Nil
    with Cons.prems have "m (c # html) = Some x" by simp
    then show ?thesis by simp
  next
    case (Cons d q)
    with Cons.prems have "html = q @ t" by simp
    from Cons.IH [OF this Cons.prems(2)] show ?thesis by (cases "m (c # html)") auto
  qed
qed

lemma first_match_group:
  assumes "proper_ends ends" and "first_match (assignment_at kw ends) html = Some g"
  shows "\<exists>pre w post. html = pre @ w @ post \<and> pattern_group kw ends w g"
proof -
  from first_match_sound [OF assms(2)] obtain pre t
    where t: "html = pre @ t" "assignment_at kw ends t = Some g" by blast
  from assignment_at_sound [OF t(2)] obtain ws1 ws2 b rest
    where d: "t = kw @ ws1 @ ''='' @ ws2 @ ''{'' @ b @ rest" "list_all is_space ws1" "list_all is_space ws2"
      "b \<noteq> []" "terminated ends rest" "g = ''{'' @ b @ ''}''" by blast
  from d(5) terminated_iff [OF assms(1)] obtain ws3 e post
    where r: "rest = ''};'' @ ws3 @ e @ post" "list_all is_space ws3" "e \<in> set ends" by blast
  let ?w = "kw @ ws1 @ ''='' @ ws2 @ ''{'' @ b @ ''};'' @ ws3 @ e"
  from d r have "pattern_group kw ends ?w g" unfolding pattern_group_def by blast
  moreover from t(1) d(1) r(1) have "html = pre @ ?w @ post" by simp
  ultimately show ?thesis by blast
qed

lemma first_match_iff:
  assumes "proper_ends ends"
  shows "(\<exists>g. first_match (assignment_at kw ends) html = Some g) \<longleftrightarrow> contains_match kw ends html"
proof
  assume "\<exists>g. first_match (assignment_at kw ends) html = Some g"
  then obtain g where "first_match (assignment_at kw ends) html = Some g" ..
  from first_match_group [OF assms this] show "contains_match kw ends html"
    unfolding contains_match_def by blast
next
  assume "contains_match kw ends html"
  then obtain pre w post ws1 ws2 b ws3 e
    where h: "html = pre @ w @ post" and w: "w = kw @ ws1 @ ''='' @ ws2 @ ''{'' @ b @ ''};'' @ ws3 @ e"
      and sp: "list_all is_space ws1" "list_all is_space ws2" "list_all is_space ws3"
      and b: "b \<noteq> []" and e: "e \<in> set ends"
    unfolding contains_match_def pattern_group_def by blast
  from sp(3) e have "terminated ends (''};'' @ ws3 @ e @ post)"
    unfolding terminated_iff [OF assms] by blast
  with assignment_at_complete [of "w @ post" kw ws1 ws2 b "''};'' @ ws3 @ e @ post" ends] w sp b
  obtain g where g: "assignment_at kw ends (w @ post) = Some g" by auto
  from first_match_complete [of html pre "w @ post" "assignment_at kw ends" g] h g show "\<exists>g. first_match (assignment_at kw ends) html = Some g" .
qed

lemma proper_ends_script: "proper_ends [''</script>'']"
  by (simp add: proper_ends_def is_space_def)

lemma proper_ends_var: "proper_ends [''var '', ''</script>'']"
  by (simp add: proper_ends_def is_space_def)

lemma match_script_iff: "match_script html \<noteq> None \<longleftrightarrow> contains_match ''var ytInitialData'' [''</script>''] html"
  using first_match_iff [OF proper_ends_script, of "''var ytInitialData''" html]
  by (simp add: match_script_def)

lemma match_var_iff: "match_var html \<noteq> None \<longleftrightarrow> contains_match ''ytInitialData'' [''var '', ''</script>''] html"
  using first_match_iff [OF proper_ends_var, of "''ytInitialData''" html]
  by (simp add: match_var_def)

lemma html_match_none:
  "html_match html = None \<longleftrightarrow>
     \<not> contains_match ''var ytInitialData'' [''</script>''] html
     \<and> \<not> contains_match ''ytInitialData'' [''var '', ''</script>''] html"
  using match_script_iff [of html] match_var_iff [of html]
  by (auto simp: html_match_def split: option.splits)

lemma html_match_group:
  assumes "html_match html = Some g"
  shows "\<exists>pre w post. html = pre @ w @ post
           \<and> (pattern_group ''var ytInitialData'' [''</script>''] w g
              \<or> pattern_group ''ytInitialData'' [''var '', ''</script>''] w g)"
proof (cases "match_script html")
  case (Some g')
  with assms have "match_script html = Some g" by (simp add: html_match_def)
  then have "first_match (assignment_at ''var ytInitialData'' [''</script>'']) html = Some g"
    by (simp add: match_script_def)
  from first_match_group [OF proper_ends_script this] show ?thesis by blast
next
  case None
  with assms have "match_var html = Some g" by (simp add: html_match_def)
  then have "first_match (assignment_at ''ytInitialData'' [''var '', ''</script>'']) html = Some g"
    by (simp add: match_var_def)
  from first_match_group [OF proper_ends_var this] show ?thesis by blast
qed

lemma messages_differ: "extraction_message \<noteq> parse_message"
  by (simp add: extraction_message_def parse_message_def)

lemma extraction_message_causes:
  "str_includes extraction_message ''The channel may not exist''
   \<and> str_includes extraction_message ''YouTube blocked the request''"
  by code_simp

text \<open>An occurrence at the head of a text, read from left to right.\<close>

lemma occurrence_at_iff:
  assumes "proper_ends ends"
  shows "occurrence_at kw ends t g \<longleftrightarrow>
           prefix kw t
           \<and> (\<exists>r1 r2 b rest.
                 dropWhile is_space (drop (length kw) t) = CHR ''='' # r1
                 \<and> dropWhile is_space r1 = CHR ''{'' # r2
                 \<and> r2 = b @ rest \<and> b \<noteq> [] \<and> terminated ends rest \<and> g = ''{'' @ b @ ''}'')"
proof
  have eq: "\<not> is_space CHR ''=''" and br: "\<not> is_space CHR ''{''"
    by (simp_all add: is_space_def)
  assume "occurrence_at kw ends t g"
  then obtain ws1 ws2 b ws3 e post
    where t: "t = kw @ ws1 @ ''='' @ ws2 @ ''{'' @ b @ ''};'' @ ws3 @ e @ post"
      and sp: "list_all is_space ws1" "list_all is_space ws2" "list_all is_space ws3"
      and b: "b \<noteq> []" and e: "e \<in> set ends" and g: "g = ''{'' @ b @ ''}''"
    unfolding occurrence_at_def pattern_group_def by auto
  let ?rest = "''};'' @ ws3 @ e @ post"
  from sp(3) e have tm: "terminated ends ?rest"
    unfolding terminated_iff [OF assms] by blast
  from t have kw: "prefix kw t"
    and d: "drop (length kw) t = ws1 @ CHR ''='' # (ws2 @ CHR ''{'' # (b @ ?rest))"
    by simp_all
  from d sp(1) dropWhile_spaces_eq [OF eq]
  have r1: "dropWhile is_space (drop (length kw) t) = CHR ''='' # (ws2 @ CHR ''{'' # (b @ ?rest))" by blast
  from sp(2) dropWhile_spaces_eq [OF br]
  have r2: "dropWhile is_space (ws2 @ CHR ''{'' # (b @ ?rest)) = CHR ''{'' # (b @ ?rest)" by blast
  from kw r1 r2 b tm g
  show "prefix kw t
           \<and> (\<exists>r1 r2 b rest.
                 dropWhile is_space (drop (length kw) t) = CHR ''='' # r1
                 \<and> dropWhile is_space r1 = CHR ''{'' # r2
                 \<and> r2 = b @ rest \<and> b \<noteq> [] \<and> terminated ends rest \<and> g = ''{'' @ b @ ''}'')"
    by blast
next
  have eq: "\<not> is_space CHR ''=''" and br: "\<not> is_space CHR ''{''"
    by (simp_all add: is_space_def)
  assume "prefix kw t
           \<and> (\<exists>r1 r2 b rest.
                 dropWhile is_space (drop (length kw) t) = CHR ''='' # r1
                 \<and> dropWhile is_space r1 = CHR ''{'' # r2
                 \<and> r2 = b @ rest \<and> b \<noteq> [] \<and> terminated ends rest \<and> g = ''{'' @ b @ ''}'')"
  then obtain r1 r2 b rest where kw: "prefix kw t"
    and r1: "dropWhile is_space (drop (length kw) t) = CHR ''='' # r1"
    and r2: "dropWhile is_space r1 = CHR ''{'' # r2"
    and b: "r2 = b @ rest" "b \<noteq> []" "terminated ends rest" "g = ''{'' @ b @ ''}''"
    by blast
  from r1 dropWhile_spaces_eq [OF eq] obtain ws1
    where ws1: "drop (length kw) t = ws1 @ CHR ''='' # r1" "list_all is_space ws1" by blast
  from r2 dropWhile_spaces_eq [OF br] obtain ws2
    where ws2: "r1 = ws2 @ CHR ''{'' # r2" "list_all is_space ws2" by blast
  from b(3) terminated_iff [OF assms] obtain ws3 e post
    where r: "rest = ''};'' @ ws3 @ e @ post" "list_all is_space ws3" "e \<in> set ends" by blast
  from kw have "t = kw @ drop (length kw) t" by (auto simp: prefix_def)
  with ws1 ws2 b r have t: "t = (kw @ ws1 @ ''='' @ ws2 @ ''{'' @ b @ ''};'' @ ws3 @ e) @ post" by simp
  have "pattern_group kw ends (kw @ ws1 @ ''='' @ ws2 @ ''{'' @ b @ ''};'' @ ws3 @ e) g"
    unfolding pattern_group_def using ws1(2) ws2(2) r(2,3) b(2,4) by blast
  with t show "occurrence_at kw ends t g"
    unfolding occurrence_at_def by blast
qed

lemma lazy_any_iff:
  "lazy_any cont [] t = Some b \<longleftrightarrow>
     (\<exists>rest. t = b @ rest \<and> b \<noteq> [] \<and> cont rest)
     \<and> (\<forall>b' rest'. t = b' @ rest' \<and> b' \<noteq> [] \<and> cont rest' \<longrightarrow> length b \<le> length b')"
proof
  assume "lazy_any cont [] t = Some b"
  from lazy_any_sound [OF this]
  have "\<exists>b0 rest. t = b0 @ rest \<and> b0 \<noteq> [] \<and> cont rest \<and> b = b0
          \<and> (\<forall>b' rest'. t = b' @ rest' \<and> b' \<noteq> [] \<and> length b' < length b0 \<longrightarrow> \<not> cont rest')"
    by simp
  then obtain rest
    where b: "t = b @ rest" "b \<noteq> []" "cont rest"
      and least: "\<forall>b' rest'. t = b' @ rest' \<and> b' \<noteq> [] \<and> length b' < length b \<longrightarrow> \<not> cont rest'"
    by blast
  have "length b \<le> length b'" if "t = b' @ rest'" "b' \<noteq> []" "cont rest'" for b' rest'
  proof (rule ccontr)
    assume "\<not> length b \<le> length b'"
    then have "length b' < length b" by simp
    with least that show False by blast
  qed
  then have "\<forall>b' rest'. t = b' @ rest' \<and> b' \<noteq> [] \<and> cont rest' \<longrightarrow> length b \<le> length b'"
    by blast
  with b show "(\<exists>rest. t = b @ rest \<and> b \<noteq> [] \<and> cont rest)
     \<and> (\<forall>b' rest'. t = b' @ rest' \<and> b' \<noteq> [] \<and> cont rest' \<longrightarrow> length b \<le> length b')"
    by blast
next
  assume a: "(\<exists>rest. t = b @ rest \<and> b \<noteq> [] \<and> cont rest)
     \<and> (\<forall>b' rest'. t = b' @ rest' \<and> b' \<noteq> [] \<and> cont rest' \<longrightarrow> length b \<le> length b')"
  then obtain rest where b: "t = b @ rest" "b \<noteq> []" "cont rest" by blast
  from a have least: "\<And>b' rest'. t = b' @ rest' \<Longrightarrow> b' \<noteq> [] \<Longrightarrow> cont rest' \<Longrightarrow> length b \<le> length b'"
    by blast
  from lazy_any_complete [of t b rest cont "[]"] b obtain r where r: "lazy_any cont [] t = Some r" by blast
  from lazy_any_sound [OF r]
  have "\<exists>b0 rest. t = b0 @ rest \<and> b0 \<noteq> [] \<and> cont rest \<and> r = b0
          \<and> (\<forall>b' rest'. t = b' @ rest' \<and> b' \<noteq> [] \<and> length b' < length b0 \<longrightarrow> \<not> cont rest')"
    by simp
  then obtain rest2
    where r2: "t = r @ rest2" "r \<noteq> []" "cont rest2"
      and least2: "\<forall>b' rest'. t = b' @ rest' \<and> b' \<noteq> [] \<and> length b' < length r \<longrightarrow> \<not> cont rest'"
    by blast
  from least [OF r2] have "length b \<le> length r" .
  moreover from least2 b have "\<not> length b < length r" by blast
  ultimately have "length b = length r" by simp
  with b(1) r2(1) have "b = r" by (metis append_eq_append_conv)
  with r show "lazy_any cont [] t = Some b" by simp
qed

lemma assignment_at_iff:
  assumes "proper_ends ends"
  shows "assignment_at kw ends t = Some g \<longleftrightarrow>
           occurrence_at kw ends t g \<and> (\<forall>g'. occurrence_at kw ends t g' \<longrightarrow> length g \<le> length g')"
proof (cases "prefix kw t")
  case False
  then show ?thesis
    by (simp add: assignment_at_def occurrence_at_iff [OF assms])
next
  case kw: True
  show ?thesis
  proof (cases "\<exists>r1. dropWhile is_space (drop (length kw) t) = CHR ''='' # r1")
    case False
    then have "assignment_at kw ends t = None"
      by (auto simp: assignment_at_def split: list.splits)
    with False show ?thesis
      by (simp add: occurrence_at_iff [OF assms])
  next
    case True
    then obtain r1 where r1: "dropWhile is_space (drop (length kw) t) = CHR ''='' # r1" ..
    show ?thesis
    proof (cases "\<exists>r2. dropWhile is_space r1 = CHR ''{'' # r2")
      case False
      with kw r1 have "assignment_at kw ends t = None"
        by (auto simp: assignment_at_def split: list.splits)
      with False r1 show ?thesis
        by (simp add: occurrence_at_iff [OF assms])
    next
      case True
      then obtain r2 where r2: "dropWhile is_space r1 = CHR ''{'' # r2" ..
      have occ: "occurrence_at kw ends t h \<longleftrightarrow>
                   (\<exists>b rest. r2 = b @ rest \<and> b \<noteq> [] \<and> terminated ends rest \<and> h = ''{'' @ b @ ''}'')" for h
        using kw r1 r2 by (simp add: occurrence_at_iff [OF assms])
      have asg: "assignment_at kw ends t = map_option (\<lambda>b. ''{'' @ b @ ''}'') (lazy_any (terminated ends) [] r2)"
        using kw r1 r2 by (simp add: assignment_at_def)
      show ?thesis
      proof
        assume "assignment_at kw ends t = Some g"
        with asg have "map_option (\<lambda>b. ''{'' @ b @ ''}'') (lazy_any (terminated ends) [] r2) = Some g"
          by simp
        then obtain b where b: "lazy_any (terminated ends) [] r2 = Some b" "g = ''{'' @ b @ ''}''"
          by (cases "lazy_any (terminated ends) [] r2") auto
        from b(1) have s: "\<exists>rest. r2 = b @ rest \<and> b \<noteq> [] \<and> terminated ends rest"
          and least: "\<forall>b' rest'. r2 = b' @ rest' \<and> b' \<noteq> [] \<and> terminated ends rest' \<longrightarrow> length b \<le> length b'"
          unfolding lazy_any_iff by blast+
        from s b(2) have "occurrence_at kw ends t g" unfolding occ by blast
        moreover have "length g \<le> length g'" if "occurrence_at kw ends t g'" for g'
        proof -
          from that obtain b' rest' where b': "r2 = b' @ rest'" "b' \<noteq> []" "terminated ends rest'"
            "g' = ''{'' @ b' @ ''}''"
            unfolding occ by blast
          with least have "length b \<le> length b'" by blast
          with b(2) b'(4) show ?thesis by simp
        qed
        ultimately show "occurrence_at kw ends t g \<and> (\<forall>g'. occurrence_at kw ends t g' \<longrightarrow> length g \<le> length g')"
          by blast
      next
        assume a: "occurrence_at kw ends t g \<and> (\<forall>g'. occurrence_at kw ends t g' \<longrightarrow> length g \<le> length g')"
        then obtain b rest where b: "r2 = b @ rest" "b \<noteq> []" "terminated ends rest" "g = ''{'' @ b @ ''}''"
          unfolding occ by blast
        have "length b \<le> length b'" if "r2 = b' @ rest'" "b' \<noteq> []" "terminated ends rest'" for b' rest'
        proof -
          from that have "occurrence_at kw ends t (''{'' @ b' @ ''}'')" unfolding occ by blast
          with a have "length g \<le> length (''{'' @ b' @ ''}'')" by blast
          with b(4) show ?thesis by simp
        qed
        with b(1,2,3) have "lazy_any (terminated ends) [] r2 = Some b"
          unfolding lazy_any_iff by blast
        with asg b(4) show "assignment_at kw ends t = Some g" by simp
      qed
    qed
  qed
qed

lemma assignment_at_none:
  assumes "proper_ends ends"
  shows "assignment_at kw ends t = None \<longleftrightarrow> (\<forall>g. \<not> occurrence_at kw ends t g)"
proof
  assume n: "assignment_at kw ends t = None"
  show "\<forall>g. \<not> occurrence_at kw ends t g"
  proof (intro allI notI)
    fix g
    assume "occurrence_at kw ends t g"
    then obtain r1 r2 b rest where o: "prefix kw t"
      "dropWhile is_space (drop (length kw) t) = CHR ''='' # r1"
      "dropWhile is_space r1 = CHR ''{'' # r2"
      "r2 = b @ rest" "b \<noteq> []" "terminated ends rest"
      unfolding occurrence_at_iff [OF assms] by blast
    from lazy_any_complete [of r2 b rest "terminated ends" "[]"] o(4,5,6) obtain r where "lazy_any (terminated ends) [] r2 = Some r"
      by blast
    with o(1,2,3) have "assignment_at kw ends t \<noteq> None" by (simp add: assignment_at_def)
    with n show False by simp
  qed
next
  assume a: "\<forall>g. \<not> occurrence_at kw ends t g"
  show "assignment_at kw ends t = None"
  proof (cases "assignment_at kw ends t")
    case None
    then show ?thesis .
  next
    case (Some g)
    then have "occurrence_at kw ends t g" unfolding assignment_at_iff [OF assms] by blast
    with a show ?thesis by blast
  qed
qed

lemma first_match_leftmost:
  "m t = Some x \<Longrightarrow> (\<forall>pre' t'. pre @ t = pre' @ t' \<and> length pre' < length pre \<longrightarrow> m t' = None)
     \<Longrightarrow> first_match m (pre @ t) = Some x"
proof (induction pre)
  case Nil
  then show ?case by (cases t) simp_all
next
  case (Cons c pre)
  from Cons.prems(2) have "m (c # pre @ t) = None"
    by (metis append_Cons append_Nil length_greater_0_conv list.distinct(1) list.size(3))
  moreover have "\<forall>pre' t'. pre @ t = pre' @ t' \<and> length pre' < length pre \<longrightarrow> m t' = None"
  proof (intro allI impI, elim conjE)
    fix pre' t'
    assume "pre @ t = pre' @ t'" "length pre' < length pre"
    then have "(c # pre) @ t = (c # pre') @ t' \<and> length (c # pre') < length (c # pre)" by simp
    with Cons.prems(2) show "m t' = None" by blast
  qed
  ultimately show ?case using Cons.IH [OF Cons.prems(1)] by simp
qed

lemma first_match_first:
  "first_match m html = Some x \<longleftrightarrow>
     (\<exists>pre t. html = pre @ t \<and> m t = Some x
        \<and> (\<forall>pre' t'. html = pre' @ t' \<and> length pre' < length pre \<longrightarrow> m t' = None))"
proof
  assume "first_match m html = Some x"
  then show "\<exists>pre t. html = pre @ t \<and> m t = Some x
        \<and> (\<forall>pre' t'. html = pre' @ t' \<and> length pre' < length pre \<longrightarrow> m t' = None)"
    by (rule first_match_sound)
next
  assume "\<exists>pre t. html = pre @ t \<and> m t = Some x
        \<and> (\<forall>pre' t'. html = pre' @ t' \<and> length pre' < length pre \<longrightarrow> m t' = None)"
  then obtain pre t where h: "html = pre @ t" and m: "m t = Some x"
    and l: "\<forall>pre' t'. html = pre' @ t' \<and> length pre' < length pre \<longrightarrow> m t' = None" by blast
  from l have "\<forall>pre' t'. pre @ t = pre' @ t' \<and> length pre' < length pre \<longrightarrow> m t' = None"
    unfolding h .
  from first_match_leftmost [OF m this] h show "first_match m html = Some x" by simp
qed

lemma first_match_occurrence:
  assumes "proper_ends ends"
  shows "first_match (assignment_at kw ends) html = Some g \<longleftrightarrow> first_occurrence kw ends html g"
  unfolding first_match_first first_occurrence_def assignment_at_iff [OF assms] assignment_at_none [OF assms]
  by blast

lemma html_match_selected: "html_match html = Some g \<longleftrightarrow> selected_group html g"
proof (cases "match_script html")
  case None
  then have "\<not> contains_match ''var ytInitialData'' [''</script>''] html"
    using match_script_iff [of html] by simp
  moreover from None have "\<not> first_occurrence ''var ytInitialData'' [''</script>''] html g"
    using first_match_occurrence [OF proper_ends_script, of "''var ytInitialData''" html g]
    by (simp add: match_script_def)
  moreover from None have "html_match html = match_var html"
    by (simp add: html_match_def)
  ultimately show ?thesis
    using first_match_occurrence [OF proper_ends_var, of "''ytInitialData''" html g]
    by (simp add: selected_group_def match_var_def)
next
  case (Some g1)
  then have c: "contains_match ''var ytInitialData'' [''</script>''] html"
    using match_script_iff [of html] by simp
  from Some have "html_match html = match_script html"
    by (simp add: html_match_def)
  with c show ?thesis
    using first_match_occurrence [OF proper_ends_script, of "''var ytInitialData''" html g]
    by (simp add: selected_group_def match_script_def)
qed

text \<open>
  C6: the extractor succeeds exactly when the page contains a substring matching one of
  the two patterns and the group of the first match parses as JSON, the first match being
  the leftmost occurrence, with the shortest body, of the \<open></script>\<close>-terminated pattern
  if the page has one and of the \<open>var\<close>-terminated pattern otherwise: the result is then
  the parsed group, and no other text of the page is parsed. When neither pattern matches
  it fails with the extraction error, whose message names both causes; when the group of
  the first match does not parse it fails with the parse error, a different one.
\<close>

theorem extract_data_outcomes:
  "(extract_data JSON_parse html = Inr y \<longleftrightarrow> (\<exists>g. selected_group html g \<and> JSON_parse g = Some y))
   \<and> (extract_data JSON_parse html = Inl (Error parse_message) \<longleftrightarrow>
        (\<exists>g. selected_group html g \<and> JSON_parse g = None))
   \<and> (extract_data JSON_parse html = Inl (Error extraction_message) \<longleftrightarrow>
        \<not> contains_match ''var ytInitialData'' [''</script>''] html
        \<and> \<not> contains_match ''ytInitialData'' [''var '', ''</script>''] html)
   \<and> ((\<exists>g. selected_group html g) \<longleftrightarrow>
        contains_match ''var ytInitialData'' [''</script>''] html
        \<or> contains_match ''ytInitialData'' [''var '', ''</script>''] html)
   \<and> ((\<exists>y. extract_data JSON_parse html = Inr y) \<longleftrightarrow>
        (contains_match ''var ytInitialData'' [''</script>''] html
         \<or> contains_match ''ytInitialData'' [''var '', ''</script>''] html)
        \<and> (\<exists>g. selected_group html g \<and> JSON_parse g \<noteq> None))
   \<and> (selected_group html g \<and> selected_group html g' \<longrightarrow> g = g')
   \<and> (selected_group html g \<longrightarrow>
        (\<exists>pre w post. html = pre @ w @ post
           \<and> (pattern_group ''var ytInitialData'' [''</script>''] w g
              \<or> pattern_group ''ytInitialData'' [''var '', ''</script>''] w g)))
   \<and> extraction_message \<noteq> parse_message
   \<and> str_includes extraction_message ''The channel may not exist''
   \<and> str_includes extraction_message ''YouTube blocked the request''"
proof -
  let ?c1 = "contains_match ''var ytInitialData'' [''</script>''] html"
  let ?c2 = "contains_match ''ytInitialData'' [''var '', ''</script>''] html"
  note sel = html_match_selected [symmetric]
  have a: "extract_data JSON_parse html = Inr y \<longleftrightarrow> (\<exists>g. selected_group html g \<and> JSON_parse g = Some y)"
    unfolding sel by (auto simp: extract_data_def split: option.splits)
  have b: "extract_data JSON_parse html = Inl (Error parse_message) \<longleftrightarrow>
             (\<exists>g. selected_group html g \<and> JSON_parse g = None)"
    unfolding sel using messages_differ by (auto simp: extract_data_def split: option.splits)
  have c: "extract_data JSON_parse html = Inl (Error extraction_message) \<longleftrightarrow> \<not> ?c1 \<and> \<not> ?c2"
    using html_match_none [of html] messages_differ
    by (cases "html_match html") (auto simp: extract_data_def split: option.splits)
  have d: "(\<exists>g. selected_group html g) \<longleftrightarrow> ?c1 \<or> ?c2"
    unfolding sel using html_match_none [of html] by auto
  have e: "(\<exists>y. extract_data JSON_parse html = Inr y) \<longleftrightarrow>
             (?c1 \<or> ?c2) \<and> (\<exists>g. selected_group html g \<and> JSON_parse g \<noteq> None)"
    unfolding sel using html_match_none [of html]
    by (cases "html_match html") (auto simp: extract_data_def split: option.splits)
  have f: "selected_group html g \<and> selected_group html g' \<longrightarrow> g = g'"
    unfolding sel by auto
  have g: "selected_group html g \<longrightarrow>
        (\<exists>pre w post. html = pre @ w @ post
           \<and> (pattern_group ''var ytInitialData'' [''</script>''] w g
              \<or> pattern_group ''ytInitialData'' [''var '', ''</script>''] w g))"
    unfolding sel using html_match_group [of html g] by blast
  note h = messages_differ
  note i = extraction_message_causes
  show ?thesis
    apply (rule conjI, rule a)
    apply (rule conjI, rule b)
    apply (rule conjI, rule c)
    apply (rule conjI, rule d)
    apply (rule conjI, rule e)
    apply (rule conjI, rule f)
    apply (rule conjI, rule g)
    apply (rule conjI, rule h)
    apply (rule i)
    done
qed

theorem extract_data_outcomes_witness:
  "extract_data sample_parse sample_html = Inr (JObj [(''contents'', JObj [])])
   \<and> selected_group sample_html sample_blob
   \<and> extract_data (parse_only ''{b}'') priority_page = Inr (JStr ''{b}'')
   \<and> selected_group priority_page ''{b}''
   \<and> \<not> selected_group priority_page ''{a}''
   \<and> extract_data (parse_only ''{a}'') priority_page = Inl (Error parse_message)
   \<and> extract_data (parse_only ''{a}'') lazy_page = Inr (JStr ''{a}'')
   \<and> selected_group lazy_page ''{a}''
   \<and> extract_data sample_parse missing_page = Inl (Error extraction_message)
   \<and> \<not> contains_match ''var ytInitialData'' [''</script>''] missing_page
   \<and> \<not> contains_match ''ytInitialData'' [''var '', ''</script>''] missing_page
   \<and> extract_data (parse_only ''{}'') broken_html = Inl (Error parse_message)
   \<and> selected_group broken_html ''{broken}''"
proof -
  have r1: "extract_data sample_parse sample_html = Inr (JObj [(''contents'', JObj [])])" by code_simp
  have r2: "extract_data (parse_only ''{b}'') priority_page = Inr (JStr ''{b}'')" by code_simp
  have r3: "extract_data (parse_only ''{a}'') priority_page = Inl (Error parse_message)" by code_simp
  have r4: "extract_data (parse_only ''{a}'') lazy_page = Inr (JStr ''{a}'')" by code_simp
  have r5: "extract_data sample_parse missing_page = Inl (Error extraction_message)" by code_simp
  have r6: "extract_data (parse_only ''{}'') broken_html = Inl (Error parse_message)" by code_simp
  have r7: "extract_data (parse_only ''{broken}'') broken_html = Inr (JStr ''{broken}'')" by code_simp
  have only: "g = blob" if "parse_only blob g = Some v" for blob g v
    using that by (simp add: parse_only_def split: if_splits)
  from extract_data_outcomes [of sample_parse sample_html "JObj [(''contents'', JObj [])]"] r1
  obtain g1 where g1: "selected_group sample_html g1" "sample_parse g1 = Some (JObj [(''contents'', JObj [])])"
    by blast
  from g1(2) have "g1 = sample_blob" by (simp add: sample_parse_def split: if_splits)
  with g1 have s1: "selected_group sample_html sample_blob" by simp
  from extract_data_outcomes [of "parse_only ''{b}''" priority_page "JStr ''{b}''"] r2
  obtain g2 where g2: "selected_group priority_page g2" "parse_only ''{b}'' g2 = Some (JStr ''{b}'')"
    by blast
  from only [OF g2(2)] g2(1) have s2: "selected_group priority_page ''{b}''" by simp
  from extract_data_outcomes [of _ priority_page _ "''{b}''" "''{a}''"] s2
  have s3: "\<not> selected_group priority_page ''{a}''" by auto
  from extract_data_outcomes [of "parse_only ''{a}''" lazy_page "JStr ''{a}''"] r4
  obtain g4 where g4: "selected_group lazy_page g4" "parse_only ''{a}'' g4 = Some (JStr ''{a}'')"
    by blast
  from only [OF g4(2)] g4(1) have s4: "selected_group lazy_page ''{a}''" by simp
  from extract_data_outcomes [of sample_parse missing_page] r5
  have s5: "\<not> contains_match ''var ytInitialData'' [''</script>''] missing_page
   \<and> \<not> contains_match ''ytInitialData'' [''var '', ''</script>''] missing_page"
    by blast
  from extract_data_outcomes [of "parse_only ''{broken}''" broken_html "JStr ''{broken}''"] r7
  obtain g7 where g7: "selected_group broken_html g7" "parse_only ''{broken}'' g7 = Some (JStr ''{broken}'')"
    by blast
  from only [OF g7(2)] g7(1) have s7: "selected_group broken_html ''{broken}''" by simp
  from r1 s1 r2 s2 s3 r3 r4 s4 r5 s5 r6 s7 show ?thesis by (intro conjI) blast+
qed

section \<open>Properties of the ingestion run\<close>

lemma started_done: "\<not> of_nat i < L \<Longrightarrow> started L vrs i = []"
proof -
  assume "\<not> of_nat i < L"
  then have "\<not> i < nat \<lceil>L\<rceil>" by linarith
  then show ?thesis by (simp add: started_def)
qed

lemma started_step:
  assumes "of_nat i < L"
  shows "started L vrs i = (if has_id vrs i then [Suc i] else []) @ started L vrs (Suc i)"
proof -
  from assms have "i < nat \<lceil>L\<rceil>" by linarith
  then have "[i..<nat \<lceil>L\<rceil>] = i # [Suc i..<nat \<lceil>L\<rceil>]" by (rule upt_conv_Cons)
  then show ?thesis by (simp add: started_def)
qed

lemma ingest_loop_unfold_skip:
  assumes "of_nat i < L" and "\<not> has_id vrs i"
  shows "ingest_loop H L vrs i evs videos w = ingest_loop H L vrs (Suc i) evs videos w"
  using assms by (subst ingest_loop.simps) (simp add: has_id_def Let_def del: get_index.simps)

lemma ingest_loop_unfold_throw:
  assumes "of_nat i < L" and "has_id vrs i" and "initial_videoData (get_index (JArr vrs) i) = Inl e"
  shows "ingest_loop H L vrs i evs videos w = ((evs @ [progress_event L (Suc i)], w), Inl e)"
  using assms by (subst ingest_loop.simps) (simp add: has_id_def Let_def progress_event_def del: get_index.simps)

lemma ingest_loop_unfold_item:
  assumes "of_nat i < L" and "has_id vrs i" and "initial_videoData (get_index (JArr vrs) i) = Inr vd"
    and "enrich H w (to_string (get (get_index (JArr vrs) i) ''videoId'')) (vd_title vd) (vd_thumbnail vd) vd = (vd1, w1)"
  shows "ingest_loop H L vrs i evs videos w
           = ingest_loop H L vrs (Suc i) (evs @ [progress_event L (Suc i)]) (videos @ [vd1]) w1"
  using assms by (subst ingest_loop.simps) (simp add: has_id_def Let_def progress_event_def del: get_index.simps)

lemma ingest_loop_done: "\<not> of_nat i < L \<Longrightarrow> ingest_loop H L vrs i evs videos w = ((evs, w), Inr videos)"
  by (subst ingest_loop.simps) simp

lemma loop_guard: "(of_nat i < (L::rat)) = (i < nat \<lceil>L\<rceil>)"
  by linarith

lemma ingest_loop_events:
  "nat \<lceil>L\<rceil> - i = k \<Longrightarrow> ingest_loop H L vrs i evs videos w = ((evs', w'), r) \<Longrightarrow>
     \<exists>cs. evs' = evs @ map (progress_event L) cs \<and> prefix cs (started L vrs i)
          \<and> (\<forall>vs. r = Inr vs \<longrightarrow> cs = started L vrs i)"
proof (induction k arbitrary: i evs videos w)
  case 0
  from "0.prems"(1) have fin: "\<not> of_nat i < L" unfolding loop_guard by simp
  from "0.prems"(2) have "evs' = evs" unfolding ingest_loop_done [OF fin] by simp
  with started_done [OF fin] show ?case by simp
next
  case (Suc k)
  from Suc.prems(1) have lt: "of_nat i < L" unfolding loop_guard by simp
  from Suc.prems(1) have k: "nat \<lceil>L\<rceil> - Suc i = k" by simp
  show ?case
  proof (cases "has_id vrs i")
    case False
    from Suc.prems(2) have "ingest_loop H L vrs (Suc i) evs videos w = ((evs', w'), r)"
      unfolding ingest_loop_unfold_skip [OF lt False] .
    from Suc.IH [OF k this] obtain cs where cs: "evs' = evs @ map (progress_event L) cs"
        "prefix cs (started L vrs (Suc i))" "\<forall>vs. r = Inr vs \<longrightarrow> cs = started L vrs (Suc i)" by blast
    from False started_step [OF lt, of vrs] have "started L vrs i = started L vrs (Suc i)" by simp
    with cs show ?thesis by auto
  next
    case True
    from True started_step [OF lt, of vrs] have st: "started L vrs i = Suc i # started L vrs (Suc i)" by simp
    show ?thesis
    proof (cases "initial_videoData (get_index (JArr vrs) i)")
      case (Inl e)
      from Suc.prems(2) have "((evs @ [progress_event L (Suc i)], w), Inl e :: js_error + videoData list) = ((evs', w'), r)"
        unfolding ingest_loop_unfold_throw [OF lt True Inl] .
      then have "evs' = evs @ map (progress_event L) [Suc i]" "r = Inl e" by simp_all
      moreover have "prefix [Suc i] (started L vrs i)" unfolding st by simp
      ultimately show ?thesis by blast
    next
      case (Inr vd)
      obtain vd1 w1 where en: "enrich H w (to_string (get (get_index (JArr vrs) i) ''videoId'')) (vd_title vd) (vd_thumbnail vd) vd = (vd1, w1)"
        by (cases "enrich H w (to_string (get (get_index (JArr vrs) i) ''videoId'')) (vd_title vd) (vd_thumbnail vd) vd")
      from Suc.prems(2) have "ingest_loop H L vrs (Suc i) (evs @ [progress_event L (Suc i)]) (videos @ [vd1]) w1 = ((evs', w'), r)"
        unfolding ingest_loop_unfold_item [OF lt True Inr en] .
      from Suc.IH [OF k this] obtain cs where cs: "evs' = (evs @ [progress_event L (Suc i)]) @ map (progress_event L) cs"
        "prefix cs (started L vrs (Suc i))" "\<forall>vs. r = Inr vs \<longrightarrow> cs = started L vrs (Suc i)" by blast
      from cs
      have "evs' = evs @ map (progress_event L) (Suc i # cs) \<and> prefix (Suc i # cs) (started L vrs i)
          \<and> (\<forall>vs. r = Inr vs \<longrightarrow> Suc i # cs = started L vrs i)" unfolding st by simp
      then show ?thesis by blast
    qed
  qed
qed


lemma sorted_started: "sorted_wrt (<) (started L vrs i)"
proof -
  have "sorted_wrt (<) [i..<nat \<lceil>L\<rceil>]" by (rule sorted_wrt_upt)
  then have "sorted_wrt (<) (filter (has_id vrs) [i..<nat \<lceil>L\<rceil>])" by (rule sorted_wrt_filter)
  then show ?thesis by (simp add: started_def sorted_wrt_map)
qed

lemma sorted_prefix: "prefix cs xs \<Longrightarrow> sorted_wrt R xs \<Longrightarrow> sorted_wrt R cs"
  by (auto simp: prefix_def sorted_wrt_append)

lemma started_bounds:
  assumes "c \<in> set (started L vrs 0)"
  shows "1 \<le> c \<and> of_nat c < L + 1 \<and> has_id vrs (c - 1)"
proof -
  from assms obtain i where i: "c = Suc i" "i < nat \<lceil>L\<rceil>" "has_id vrs i"
    by (auto simp: started_def)
  from i(2) have "of_nat i < L" unfolding loop_guard .
  with i show ?thesis by simp
qed

lemma started_all:
  assumes "\<forall>i. of_nat i < L \<longrightarrow> has_id vrs i"
  shows "started L vrs 0 = [1..<Suc (nat \<lceil>L\<rceil>)]"
proof -
  have "filter (has_id vrs) [0..<nat \<lceil>L\<rceil>] = [0..<nat \<lceil>L\<rceil>]"
    using assms by (auto simp: loop_guard intro: filter_True)
  then show ?thesis by (simp add: started_def map_Suc_upt)
qed

lemma locate_failure:
  assumes "fst (locate H w url) = Inl e"
  shows "fst (ingest H w url mv) = [Failed e]"
proof -
  from assms obtain w1 where "locate H w url = (Inl e, w1)" by (cases "locate H w url") auto
  then show ?thesis by (simp add: ingest_def ingest_body_def)
qed

lemma locate_success:
  assumes "fst (locate H w url) = Inr vrs"
  shows "\<exists>L cs t. limit (length vrs) mv = Fin L
           \<and> fst (ingest H w url mv) = map (progress_event L) cs @ [t] \<and> is_terminal t
           \<and> prefix cs (started L vrs 0) \<and> sorted_wrt (<) cs
           \<and> (\<forall>vs. t = Done vs \<longrightarrow> cs = started L vrs 0)"
proof -
  from assms obtain w1 where loc: "locate H w url = (Inr vrs, w1)" by (cases "locate H w url") auto
  from limit_finite obtain L where L: "limit (length vrs) mv = Fin L" by blast
  obtain evs' w' r where run: "ingest_loop H L vrs 0 [] [] w1 = ((evs', w'), r)"
    by (metis surj_pair)
  from ingest_loop_events [OF refl run] obtain cs
    where cs: "evs' = map (progress_event L) cs" "prefix cs (started L vrs 0)"
      "\<forall>vs. r = Inr vs \<longrightarrow> cs = started L vrs 0" by auto
  let ?t = "case r of Inl e \<Rightarrow> Failed e | Inr vs \<Rightarrow> Done vs"
  from loc L run cs(1) have "fst (ingest H w url mv) = map (progress_event L) cs @ [?t]"
    by (cases r) (simp_all add: ingest_def ingest_body_def)
  moreover have "is_terminal ?t" by (cases r) simp_all
  moreover from cs(2) sorted_started have "sorted_wrt (<) cs" by (rule sorted_prefix)
  moreover from cs(3) have "\<forall>vs. ?t = Done vs \<longrightarrow> cs = started L vrs 0" by (cases r) simp_all
  ultimately show ?thesis using L cs(2) by blast
qed

lemma js_percent_examples:
  "js_percent 1 3 = 33 \<and> js_percent 2 3 = 67 \<and> js_percent 3 3 = 100 \<and> js_percent 23 40 = 57"
  by code_simp

text \<open>
  C2, as stated, fails: an entry without an id is skipped before its progress event is
  sent, so \<open>current\<close> goes from 1 to 3 on a page whose second entry has no id.
\<close>

theorem progress_skip_counterexample:
  "map current_of (fst (ingest (file_host sample_html
       (grid_parser [video_entry ''a'', JObj [(''title'', JStr ''no id'')], video_entry ''c''])
       unavailable no_subtitles) [] ''https://example.com/@demo'' (Some (Fin 3))))
     = [Some 1, Some 3, None]"
  by code_simp

text \<open>
  C2, amended: the event stream of a run is a list of progress events followed by
  exactly one terminal event. A failure in fetch, extract or navigate gives the error
  event alone. Otherwise the progress events are those of the started entries, in
  order: \<open>current\<close> is the position (from 1) of an entry with an id among the first
  \<open>limit\<close> entries, strictly increasing, and increasing by exactly 1 when every entry has
  an id; \<open>total\<close> is the limit fixed before the loop; \<open>percent\<close> is
  \<open>Math.round((current / total) * 100)\<close> as computed in double precision. A run that ends
  with \<open>done\<close> has a progress event for every such entry.
\<close>

theorem ingest_event_stream:
  "(\<exists>pre t. fst (ingest H w url mv) = pre @ [t] \<and> is_terminal t \<and> list_all (\<lambda>e. \<not> is_terminal e) pre)
   \<and> (\<forall>e. fst (locate H w url) = Inl e \<longrightarrow> fst (ingest H w url mv) = [Failed e])
   \<and> (\<forall>vrs. fst (locate H w url) = Inr vrs \<longrightarrow>
         (\<exists>L cs t. limit (length vrs) mv = Fin L
            \<and> fst (ingest H w url mv) = map (progress_event L) cs @ [t] \<and> is_terminal t
            \<and> prefix cs (started L vrs 0) \<and> sorted_wrt (<) cs
            \<and> (\<forall>vs. t = Done vs \<longrightarrow> cs = started L vrs 0)))
   \<and> (\<forall>c\<in>set (started L' vrs' 0). 1 \<le> c \<and> of_nat c < L' + 1 \<and> has_id vrs' (c - 1))
   \<and> ((\<forall>i. of_nat i < L' \<longrightarrow> has_id vrs' i) \<longrightarrow> started L' vrs' 0 = [1..<Suc (nat \<lceil>L'\<rceil>)])
   \<and> progress_event L' c' = Progress c' L' (Math_round (fl (fl (of_nat c' / L') * 100)))"
proof -
  have shape: "\<exists>pre t. fst (ingest H w url mv) = pre @ [t] \<and> is_terminal t \<and> list_all (\<lambda>e. \<not> is_terminal e) pre"
  proof (cases "fst (locate H w url)")
    case (Inl e)
    from locate_failure [OF Inl, of mv]
    have "fst (ingest H w url mv) = [] @ [Failed e] \<and> is_terminal (Failed e)
          \<and> list_all (\<lambda>e. \<not> is_terminal e) []" by simp
    then show ?thesis by blast
  next
    case (Inr vrs)
    from locate_success [OF Inr, of mv] obtain L cs t
      where "fst (ingest H w url mv) = map (progress_event L) cs @ [t]" "is_terminal t" by blast
    moreover have "list_all (\<lambda>e. \<not> is_terminal e) (map (progress_event L) cs)"
      by (simp add: list_all_iff progress_event_def)
    ultimately show ?thesis by blast
  qed
  have fail: "\<forall>e. fst (locate H w url) = Inl e \<longrightarrow> fst (ingest H w url mv) = [Failed e]"
    by (intro allI impI) (rule locate_failure)
  have run: "\<forall>vrs. fst (locate H w url) = Inr vrs \<longrightarrow>
         (\<exists>L cs t. limit (length vrs) mv = Fin L
            \<and> fst (ingest H w url mv) = map (progress_event L) cs @ [t] \<and> is_terminal t
            \<and> prefix cs (started L vrs 0) \<and> sorted_wrt (<) cs
            \<and> (\<forall>vs. t = Done vs \<longrightarrow> cs = started L vrs 0))"
    by (intro allI impI) (rule locate_success)
  have bounds: "\<forall>c\<in>set (started L' vrs' 0). 1 \<le> c \<and> of_nat c < L' + 1 \<and> has_id vrs' (c - 1)"
    by (intro ballI) (rule started_bounds)
  have all: "(\<forall>i. of_nat i < L' \<longrightarrow> has_id vrs' i) \<longrightarrow> started L' vrs' 0 = [1..<Suc (nat \<lceil>L'\<rceil>)]"
    by (intro impI) (rule started_all)
  have pe: "progress_event L' c' = Progress c' L' (Math_round (fl (fl (of_nat c' / L') * 100)))"
    by (simp add: progress_event_def js_percent_def)
  from shape fail run bounds all pe show ?thesis by (intro conjI)
qed

theorem ingest_event_stream_witness:
  "fst (locate (file_host sample_html
          (grid_parser (map video_entry [''a'', ''b'', ''c'', ''d'', ''e''])) unavailable no_subtitles)
        [] ''https://example.com/@demo'') = Inr (map video_entry [''a'', ''b'', ''c'', ''d'', ''e''])
   \<and> butlast (fst (ingest (file_host sample_html
          (grid_parser (map video_entry [''a'', ''b'', ''c'', ''d'', ''e''])) unavailable no_subtitles)
        [] ''https://example.com/@demo'' (Some (Fin 3))))
       = [Progress 1 3 33, Progress 2 3 67, Progress 3 3 100]
   \<and> is_terminal (last (fst (ingest (file_host sample_html
          (grid_parser (map video_entry [''a'', ''b'', ''c'', ''d'', ''e''])) unavailable no_subtitles)
        [] ''https://example.com/@demo'' (Some (Fin 3)))))
   \<and> fst (locate (file_host ''<html><body>Not found</body></html>'' (grid_parser []) unavailable no_subtitles)
        [] ''https://example.com/@demo'') = Inl (Error extraction_message)
   \<and> fst (ingest (file_host ''<html><body>Not found</body></html>'' (grid_parser []) unavailable no_subtitles)
        [] ''https://example.com/@demo'' (Some (Fin 3))) = [Failed (Error extraction_message)]"
proof -
  let ?H = "file_host sample_html
          (grid_parser (map video_entry [''a'', ''b'', ''c'', ''d'', ''e''])) unavailable no_subtitles"
  let ?G = "file_host ''<html><body>Not found</body></html>'' (grid_parser []) unavailable no_subtitles"
  have l1: "fst (locate ?H [] ''https://example.com/@demo'') = Inr (map video_entry [''a'', ''b'', ''c'', ''d'', ''e''])"
    by code_simp
  have e1: "butlast (fst (ingest ?H [] ''https://example.com/@demo'' (Some (Fin 3))))
              = [Progress 1 3 33, Progress 2 3 67, Progress 3 3 100]"
    by code_simp
  have l2: "fst (locate ?G [] ''https://example.com/@demo'') = Inl (Error extraction_message)"
    by code_simp
  from ingest_event_stream [of ?H "[]" "''https://example.com/@demo''" "Some (Fin 3)"]
  obtain pre t where "fst (ingest ?H [] ''https://example.com/@demo'' (Some (Fin 3))) = pre @ [t]" "is_terminal t"
    by blast
  then have t1: "is_terminal (last (fst (ingest ?H [] ''https://example.com/@demo'' (Some (Fin 3)))))"
    by simp
  from ingest_event_stream [of ?G "[]" "''https://example.com/@demo''" "Some (Fin 3)"] l2
  have e2: "fst (ingest ?G [] ''https://example.com/@demo'' (Some (Fin 3))) = [Failed (Error extraction_message)]"
    by blast
  from l1 e1 t1 l2 e2 show ?thesis by (intro conjI)
qed

section \<open>Properties of the video enricher\<close>

lemma parseInt_shape: "parseInt v = JNaN \<or> (\<exists>n. parseInt v = JNum n)"
  by (simp add: parseInt_def Let_def)

text \<open>The three counts of a record are never strings: each is \<open>null\<close>, \<open>NaN\<close> or an integer.\<close>

lemma parseInt_count: "is_count (parseInt v)"
  using parseInt_shape [of v] by auto

lemma scan_panels_count: "scan_panels ps = Inr (Some n) \<Longrightarrow> is_count n"
  by (induction ps) (auto simp: Let_def parseInt_count split: if_splits jsval.splits)

lemma enrich_counts_ok:
  assumes "counts_ok vd"
  shows "counts_ok (fst (enrich_counts info title0 thumbnailUrl vd))"
  using assms
  by (auto simp: enrich_counts_def counts_ok_def Let_def parseInt_count
           split: sum.splits option.splits dest: scan_panels_count)

lemma transcript_step_counts: "counts_ok vd \<Longrightarrow> counts_ok (fst (transcript_step H w i vd))"
  by (auto simp: transcript_step_def counts_ok_def Let_def split: sum.splits option.splits)

lemma enrich_ok:
  assumes "counts_ok vd"
  shows "counts_ok (fst (enrich H w i t u vd))"
proof -
  obtain r w1 where g: "getInfo H w (''https://www.youtube.com/watch?v='' @ i) = (r, w1)"
    by (cases "getInfo H w (''https://www.youtube.com/watch?v='' @ i)")
  show ?thesis
  proof (cases r)
    case (Inl e)
    with g assms show ?thesis by (simp add: enrich_def)
  next
    case (Inr info)
    obtain vd1 b where e: "enrich_counts info t u vd = (vd1, b)"
      by (cases "enrich_counts info t u vd")
    with enrich_counts_ok [OF assms, of info t u] have ok: "counts_ok vd1" by simp
    show ?thesis
    proof (cases b)
      case True
      with g Inr e transcript_step_counts [OF ok, of H w1 i] show ?thesis by (simp add: enrich_def)
    next
      case False
      with g Inr e ok show ?thesis by (simp add: enrich_def)
    qed
  qed
qed

lemma initial_counts_ok: "initial_videoData vr = Inr vd \<Longrightarrow> counts_ok vd"
  by (auto simp: initial_videoData_def counts_ok_def Let_def split: sum.splits)

text \<open>
  C3 at a failing input: the info lookup answers with the view count \<open>"N/A"\<close>, a comment
  count only in the engagement panel, as \<open>"1,234"\<close>, and 5 likes. The record gets the
  view count \<open>NaN\<close>, where the claim has \<open>null\<close>; the comment count, guarded by \<open>isNaN\<close>, is
  1234.
\<close>

theorem view_count_not_a_number:
  "done_counts (last (fst (ingest (file_host sample_html (grid_parser [video_entry ''a'']) sample_info no_subtitles)
       [] ''https://example.com/@demo'' None)))
     = [(JNaN, JNum 5, JNum 1234)]"
  by code_simp

text \<open>
  C8 at a failing input: the subtitle command leaves a file that does not parse. The
  transcript stays empty and the record is returned, but the file is still there, where
  the claim has it deleted; a file that parses is deleted.
\<close>

theorem subtitle_file_left_behind:
  "transcript_step (file_host sample_html caption_parser unavailable (\<lambda>u. Some ''{truncated'')) [] ''a'' blank_videoData
     = (blank_videoData, [(''/tmp/yt_sub_a.en.json3'', ''{truncated'')])
   \<and> transcript_step (file_host sample_html caption_parser unavailable (\<lambda>u. Some ''CAPTIONS'')) [] ''a'' blank_videoData
     = (blank_videoData\<lparr> vd_transcript := ''Hello world'' \<rparr>, [])"
  by code_simp

end
